theory Spec2Isabelle
  imports Main "HOL-Library.Word"
begin

section \<open>The FIFO handler of winsup/cygwin/fhandler\_fifo.cc\<close>

text \<open>
  A shallow embedding of \<^verbatim>\<open>fhandler_fifo\<close>: the object's members are a record, the
  shared-memory block is a record of its own, and every method is a function that takes
  the state and returns the new one. System calls are not executed: each call is
  appended to a list kept in the state, and what the platform answers is an argument of
  the function (a record of answers per call site). A function is the run of one thread
  through the method. Another thread is taken into account in two places: the sleep of
  the reading thread, which is there to let the fifo\_reader thread catch up, and the
  error paths of \<^verbatim>\<open>open\<close> that cancel the fifo\_reader thread \<^verbatim>\<open>open\<close> has started, and
  wait for its end.
\<close>

subsection \<open>Platform types and constants\<close>

type_synonym HANDLE = "64 word"
type_synonym NTSTATUS = "32 word"
type_synonym DWORD = "32 word"
type_synonym ULONG = "32 word"
type_synonym size_t = "64 word"
type_synonym ssize_t = "64 word"

definition NULL :: HANDLE where
  "NULL = 0"

text \<open>
  The status codes the file names. Their values are those of the platform headers
  (ntstatus.h; the two THREAD codes are Cygwin's own, from ntdll.h), which are not part
  of this file.
\<close>

definition STATUS_SUCCESS :: NTSTATUS where "STATUS_SUCCESS = 0x00000000"
definition STATUS_PENDING :: NTSTATUS where "STATUS_PENDING = 0x00000103"
definition STATUS_BUFFER_OVERFLOW :: NTSTATUS where "STATUS_BUFFER_OVERFLOW = 0x80000005"
definition STATUS_OBJECT_NAME_COLLISION :: NTSTATUS where "STATUS_OBJECT_NAME_COLLISION = 0xC0000035"
definition STATUS_THREAD_IS_TERMINATING :: NTSTATUS where "STATUS_THREAD_IS_TERMINATING = 0xC000004B"
definition STATUS_INSTANCE_NOT_AVAILABLE :: NTSTATUS where "STATUS_INSTANCE_NOT_AVAILABLE = 0xC00000AB"
definition STATUS_PIPE_NOT_AVAILABLE :: NTSTATUS where "STATUS_PIPE_NOT_AVAILABLE = 0xC00000AC"
definition STATUS_PIPE_BUSY :: NTSTATUS where "STATUS_PIPE_BUSY = 0xC00000AE"
definition STATUS_PIPE_CLOSING :: NTSTATUS where "STATUS_PIPE_CLOSING = 0xC00000B1"
definition STATUS_PIPE_CONNECTED :: NTSTATUS where "STATUS_PIPE_CONNECTED = 0xC00000B2"
definition STATUS_PIPE_EMPTY :: NTSTATUS where "STATUS_PIPE_EMPTY = 0xC00000D9"
definition STATUS_PIPE_BROKEN :: NTSTATUS where "STATUS_PIPE_BROKEN = 0xC000014B"
definition STATUS_THREAD_SIGNALED :: NTSTATUS where "STATUS_THREAD_SIGNALED = 0xE0000001"
definition STATUS_THREAD_CANCELED :: NTSTATUS where "STATUS_THREAD_CANCELED = 0xE0000002"

text \<open>\<^verbatim>\<open>NT_SUCCESS (status)\<close> is \<^verbatim>\<open>((NTSTATUS) (status) >= 0)\<close>: a test of the sign.\<close>

definition NT_SUCCESS :: "NTSTATUS \<Rightarrow> bool" where
  "NT_SUCCESS status = (0 \<le> sint status)"

definition STATUS_PIPE_IS_CLOSED :: "NTSTATUS \<Rightarrow> bool" where
  "STATUS_PIPE_IS_CLOSED status =
     (status = STATUS_PIPE_CLOSING \<or> status = STATUS_PIPE_BROKEN \<or> status = STATUS_PIPE_EMPTY)"

definition STATUS_PIPE_NO_INSTANCE_AVAILABLE :: "NTSTATUS \<Rightarrow> bool" where
  "STATUS_PIPE_NO_INSTANCE_AVAILABLE status =
     (status = STATUS_INSTANCE_NOT_AVAILABLE \<or> status = STATUS_PIPE_NOT_AVAILABLE
      \<or> status = STATUS_PIPE_BUSY)"

text \<open>
  Wait results (winbase.h and Cygwin's cygwait.h): \<^verbatim>\<open>WAIT_SIGNALED\<close> is
  \<^verbatim>\<open>WAIT_OBJECT_0 + 1\<close> and \<^verbatim>\<open>WAIT_CANCELED\<close> is \<^verbatim>\<open>WAIT_OBJECT_0 + 2\<close>.
\<close>

definition WAIT_OBJECT_0 :: DWORD where "WAIT_OBJECT_0 = 0"
definition WAIT_SIGNALED :: DWORD where "WAIT_SIGNALED = WAIT_OBJECT_0 + 1"
definition WAIT_CANCELED :: DWORD where "WAIT_CANCELED = WAIT_OBJECT_0 + 2"
definition WAIT_TIMEOUT :: DWORD where "WAIT_TIMEOUT = 258"

datatype wait_timeout = timeout_0 | INFINITE | cw_nowait

text \<open>The errno values the file sets by name; every other value is \<open>errno_other\<close>.\<close>

datatype errno_t =
  EINTR | ENXIO | EBADF | EAGAIN | EINVAL | EMFILE | ESPIPE | EPIPE | ENOTSUP
  | errno_other nat

datatype signal_t = SIGPIPE

datatype completion_mode = FILE_PIPE_QUEUE_OPERATION | FILE_PIPE_COMPLETE_OPERATION

text \<open>
  The open flags, decoded: the access mode \<^verbatim>\<open>flags & O_ACCMODE\<close> (one of four values) and
  the three bits the file tests.
\<close>

datatype accmode_t = O_RDONLY | O_WRONLY | O_RDWR | O_ACCMODE_3

record open_flags =
  accmode :: accmode_t
  O_NONBLOCK :: bool
  O_CLOEXEC :: bool
  O_PATH :: bool

subsection \<open>The calls made to the platform\<close>

text \<open>
  One constructor per call the file makes, with the arguments that matter here.
  \<open>NtWriteFile\<close> carries the handle, the event, the buffer address and the length,
  \<open>NtReadFile\<close> the handle and \<^verbatim>\<open>len\<close> as \<^verbatim>\<open>raw_read\<close> has it (the call takes it as a
  \<^verbatim>\<open>ULONG\<close>);
  \<open>NtCreateNamedPipeFile\<close> carries \<open>first\<close>, whether the handle is inheritable, and the
  completion mode the instance is created with.
\<close>

datatype call =
  SetEvent HANDLE
  | ResetEvent HANDLE
  | CreateEvent
  | NtCreateEvent
  | NtClose HANDLE
  | Sleep nat
  | raise signal_t
  | NtSetInformationFile HANDLE completion_mode
  | NtCreateNamedPipeFile bool bool completion_mode
  | NtOpenFile_pipe bool
  | NtFsControlFile_LISTEN HANDLE HANDLE
  | NtQueryInformationFile HANDLE
  | NtWriteFile HANDLE HANDLE "64 word" ULONG
  | NtReadFile HANDLE size_t
  | WaitForSingleObject HANDLE wait_timeout
  | WaitForMultipleObjects HANDLE HANDLE
  | cygwait HANDLE wait_timeout
  | NtCreateSection
  | NtOpenSection
  | NtMapViewOfSection HANDLE
  | NtUnmapViewOfSection "64 word"
  | new_cygthread HANDLE
  | auto_release
  | open_fs
  | fhandler_base_close
  | fifo_client_lock
  | fifo_client_unlock
  | owner_lock
  | owner_unlock
  | reader_lock
  | reader_unlock

subsection \<open>The data\<close>

text \<open>
  \<^verbatim>\<open>fifo_reader_id_t\<close> (declared in fhandler.h): a process id and the address of the
  handler. Its conversion to bool is \<^verbatim>\<open>winpid != 0 || fh != NULL\<close>, its equality compares
  both members.
\<close>

record fifo_reader_id_t =
  winpid :: DWORD
  fh :: "64 word"

definition null_fr_id :: fifo_reader_id_t where
  "null_fr_id = \<lparr>winpid = 0, fh = 0\<rparr>"

definition fr_id_bool :: "fifo_reader_id_t \<Rightarrow> bool" where
  "fr_id_bool x = (winpid x \<noteq> 0 \<or> fh x \<noteq> 0)"

text \<open>
  Modelled from the spec: the states of a client handler (the enum is declared in
  fhandler.h). The file itself names \<open>fc_connected\<close> and \<open>fc_invalid\<close>; a handler that
  was just created is in the state the spec calls listening.
\<close>

datatype fifo_client_connect_state = fc_listening | fc_connected | fc_invalid

record fifo_client_handler =
  h :: HANDLE
  state :: fifo_client_connect_state

text \<open>The shared-memory block \<^verbatim>\<open>fifo_shmem_t\<close>: the reader count and the owner.\<close>

record fifo_shmem_t =
  nreaders :: int
  owner :: fifo_reader_id_t

text \<open>
  The members of \<^verbatim>\<open>fhandler_fifo\<close>. The array \<^verbatim>\<open>fc_handler[MAX_CLIENTS]\<close> with its
  count \<^verbatim>\<open>nhandlers\<close> is a list: \<open>nhandlers\<close> is its length. The last three fields are
  members of the base class: the I/O handle, the open flags and the nohandle flag.
\<close>

record fhandler_fifo =
  read_ready :: HANDLE
  write_ready :: HANDLE
  cancel_evt :: HANDLE
  sync_thr :: HANDLE
  listening_evt :: HANDLE
  fc_handler :: "fifo_client_handler list"
  nconnected :: int
  reader :: bool
  writer :: bool
  duplexer :: bool
  max_atomic_write :: size_t
  shmem_handle :: HANDLE
  shmem :: "64 word"
  me :: fifo_reader_id_t
  io_handle :: HANDLE
  openflags :: open_flags
  nohandle :: bool

text \<open>
  The whole state a method works on: the object, the shared memory it has mapped, the
  calling thread's errno, and the calls made so far.
\<close>

record world =
  obj :: fhandler_fifo
  shm :: fifo_shmem_t
  errno :: errno_t
  calls :: "call list"

text \<open>
  What the platform leaves to the program: the table's capacity (declared in fhandler.h)
  and the two mappings to errno (errno.cc).
\<close>

record platform =
  MAX_CLIENTS :: nat
  geterrno_from_nt_status :: "NTSTATUS \<Rightarrow> errno_t"
  geterrno_from_win_error :: "DWORD \<Rightarrow> errno_t"

text \<open>
  A method either returns a value or, where it calls \<^verbatim>\<open>pthread::static_cancel_self\<close>,
  never returns to its caller.
\<close>

datatype 'a outcome = Returned 'a | Cancelled

definition nhandlers :: "world \<Rightarrow> nat" where
  "nhandlers w = length (fc_handler (obj w))"

definition is_nonblocking :: "world \<Rightarrow> bool" where
  "is_nonblocking w = O_NONBLOCK (openflags (obj w))"

definition get_handle :: "world \<Rightarrow> HANDLE" where
  "get_handle w = io_handle (obj w)"

definition get_fc_handle :: "world \<Rightarrow> nat \<Rightarrow> HANDLE" where
  "get_fc_handle w i = h (fc_handler (obj w) ! i)"

definition do_call :: "call \<Rightarrow> world \<Rightarrow> world" where
  "do_call c w = w\<lparr>calls := calls w @ [c]\<rparr>"

definition set_errno :: "errno_t \<Rightarrow> world \<Rightarrow> world" where
  "set_errno e w = w\<lparr>errno := e\<rparr>"

definition get_owner :: "world \<Rightarrow> fifo_reader_id_t" where
  "get_owner w = owner (shm w)"

definition set_owner :: "fifo_reader_id_t \<Rightarrow> world \<Rightarrow> world" where
  "set_owner x w = w\<lparr>shm := (shm w)\<lparr>owner := x\<rparr>\<rparr>"

definition get_nreaders :: "world \<Rightarrow> int" where
  "get_nreaders w = nreaders (shm w)"

definition inc_nreaders :: "world \<Rightarrow> world" where
  "inc_nreaders w = w\<lparr>shm := (shm w)\<lparr>nreaders := nreaders (shm w) + 1\<rparr>\<rparr>"

definition dec_nreaders :: "world \<Rightarrow> world" where
  "dec_nreaders w = w\<lparr>shm := (shm w)\<lparr>nreaders := nreaders (shm w) - 1\<rparr>\<rparr>"

definition set_fc_state :: "nat \<Rightarrow> fifo_client_connect_state \<Rightarrow> world \<Rightarrow> world" where
  "set_fc_state i s w =
     w\<lparr>obj := (obj w)\<lparr>fc_handler := (fc_handler (obj w))[i := (fc_handler (obj w) ! i)\<lparr>state := s\<rparr>]\<rparr>\<rparr>"

definition add_nconnected :: "int \<Rightarrow> world \<Rightarrow> world" where
  "add_nconnected d w = w\<lparr>obj := (obj w)\<lparr>nconnected := nconnected (obj w) + d\<rparr>\<rparr>"

subsection \<open>The read engine\<close>

text \<open>
  \<^verbatim>\<open>Sleep (1)\<close> in the reading thread: the call is recorded and the fifo\_reader thread
  of the same object runs meanwhile; \<open>frt\<close> is what it does to the object.
\<close>

definition Sleep_1 :: "(fhandler_fifo \<Rightarrow> fhandler_fifo) \<Rightarrow> world \<Rightarrow> world" where
  "Sleep_1 frt w = (do_call (Sleep 1) w)\<lparr>obj := frt (obj w)\<rparr>"

text \<open>
  \<^verbatim>\<open>hit_eof\<close>: the label \<^verbatim>\<open>repeat\<close> with the flag \<^verbatim>\<open>retry\<close> is the recursion; the
  second pass runs with \<open>retry = False\<close>.
\<close>

function hit_eof_repeat :: "bool \<Rightarrow> (fhandler_fifo \<Rightarrow> fhandler_fifo) \<Rightarrow> world \<Rightarrow> bool \<times> world" where
  "hit_eof_repeat retry frt w =
     (let w1 = do_call fifo_client_lock w;
          eof = (nconnected (obj w1) = 0);
          w2 = do_call fifo_client_unlock w1
      in if eof \<and> retry then hit_eof_repeat False frt (Sleep_1 frt w2)
         else (eof, w2))"
  by pat_completeness auto
termination
  by (relation "measure (\<lambda>(retry, frt, w). if retry then 1 else 0)") auto

declare hit_eof_repeat.simps [simp del]

definition hit_eof :: "(fhandler_fifo \<Rightarrow> fhandler_fifo) \<Rightarrow> world \<Rightarrow> bool \<times> world" where
  "hit_eof frt w = hit_eof_repeat True frt w"

text \<open>
  What the platform answers during one pass of the loop of \<^verbatim>\<open>raw_read\<close>: the work of the
  fifo\_reader thread during the two sleeps, the status and \<^verbatim>\<open>io.Information\<close> of
  \<^verbatim>\<open>NtReadFile\<close> on the handler of each index, the result of \<^verbatim>\<open>cygwait\<close>, of
  \<^verbatim>\<open>call_signal_handler\<close> and of \<^verbatim>\<open>isclosed\<close>.
\<close>

record read_env =
  rd_frt_eof :: "fhandler_fifo \<Rightarrow> fhandler_fifo"
  rd_NtReadFile :: "nat \<Rightarrow> NTSTATUS \<times> size_t"
  rd_cygwait :: DWORD
  rd_call_signal_handler :: bool
  rd_isclosed :: bool
  rd_frt_pause :: "fhandler_fifo \<Rightarrow> fhandler_fifo"

datatype poll_result = poll_data size_t | poll_errout | poll_none

text \<open>
  The \<^verbatim>\<open>for\<close> loop over the handlers, from index \<open>i\<close>, entered with the table lock
  held. It leaves with data (the lock released, \<^verbatim>\<open>len = nbytes\<close>), at \<^verbatim>\<open>errout\<close> (the
  lock released) or at its end (the lock still held).
\<close>

function poll_clients :: "platform \<Rightarrow> read_env \<Rightarrow> size_t \<Rightarrow> nat \<Rightarrow> world \<Rightarrow> poll_result \<times> world" where
  "poll_clients pf e n i w =
     (if i < nhandlers w then
        (if state (fc_handler (obj w) ! i) = fc_connected then
           (let w1 = do_call (NtReadFile (get_fc_handle w i) n) w;
                status = fst (rd_NtReadFile e i);
                nbytes = snd (rd_NtReadFile e i)
            in if status = STATUS_SUCCESS \<or> status = STATUS_BUFFER_OVERFLOW then
                 (if 0 < nbytes then (poll_data nbytes, do_call fifo_client_unlock w1)
                  else poll_clients pf e n (i + 1) w1)
               else if status = STATUS_PIPE_EMPTY then poll_clients pf e n (i + 1) w1
               else if status = STATUS_PIPE_BROKEN then
                 poll_clients pf e n (i + 1) (add_nconnected (- 1) (set_fc_state i fc_invalid w1))
               else
                 (poll_errout,
                  do_call fifo_client_unlock
                    (add_nconnected (- 1)
                      (set_fc_state i fc_invalid
                        (set_errno (geterrno_from_nt_status pf status) w1)))))
         else poll_clients pf e n (i + 1) w)
      else (poll_none, w))"
  by pat_completeness auto
termination
  by (relation "measure (\<lambda>(pf, e, n, i, w). nhandlers w - i)")
     (auto simp: nhandlers_def do_call_def add_nconnected_def set_fc_state_def)

declare poll_clients.simps [simp del]

text \<open>
  The \<^verbatim>\<open>while (1)\<close> loop of \<^verbatim>\<open>raw_read\<close>. Each pass takes the platform's answers from the
  head of the list; \<open>None\<close> is a loop still running when the answers are used up. The
  value returned is the new \<^verbatim>\<open>len\<close>; \<^verbatim>\<open>errout\<close> sets it to \<^verbatim>\<open>(size_t) -1\<close>.
\<close>

fun raw_read_loop :: "platform \<Rightarrow> read_env list \<Rightarrow> size_t \<Rightarrow> world \<Rightarrow> (size_t outcome \<times> world) option" where
  "raw_read_loop pf [] n w = None"
| "raw_read_loop pf (e # es) n w =
     (case hit_eof (rd_frt_eof e) w of
        (True, w1) \<Rightarrow> Some (Returned 0, w1)
      | (False, w1) \<Rightarrow>
          (case poll_clients pf e n 0 (do_call fifo_client_lock w1) of
             (poll_data nbytes, w2) \<Rightarrow> Some (Returned nbytes, w2)
           | (poll_errout, w2) \<Rightarrow> Some (Returned (- 1), w2)
           | (poll_none, w2) \<Rightarrow>
               (let w3 = do_call fifo_client_unlock w2 in
                if is_nonblocking w3 then Some (Returned (- 1), set_errno EAGAIN w3)
                else
                  (let w4 = do_call (cygwait NULL cw_nowait) w3 in
                   if rd_cygwait e = WAIT_CANCELED then Some (Cancelled, w4)
                   else if rd_cygwait e = WAIT_SIGNALED \<and> rd_call_signal_handler e then
                     raw_read_loop pf es n w4
                   else if rd_cygwait e = WAIT_SIGNALED then
                     Some (Returned (- 1), set_errno EINTR w4)
                   else if rd_isclosed e then Some (Returned (- 1), set_errno EBADF w4)
                   else raw_read_loop pf es n (Sleep_1 (rd_frt_pause e) w4)))))"

text \<open>\<^verbatim>\<open>raw_read (in_ptr, len)\<close>; \<open>n\<close> is \<^verbatim>\<open>len\<close> on entry.\<close>

definition raw_read :: "platform \<Rightarrow> read_env list \<Rightarrow> size_t \<Rightarrow> world \<Rightarrow> (size_t outcome \<times> world) option" where
  "raw_read pf es n w =
     (if n = 0 then Some (Returned n, w)
      else
        (let w1 = do_call owner_lock w in
         if get_owner w1 \<noteq> me (obj w1) then
           Some (Returned (- 1), set_errno ENOTSUP (do_call owner_unlock w1))
         else raw_read_loop pf es n (do_call owner_unlock w1)))"

subsection \<open>The write engine\<close>

text \<open>
  What the platform answers to one \<^verbatim>\<open>NtWriteFile\<close> of the loop of \<^verbatim>\<open>raw_write\<close>: the
  status it returns, the result of \<^verbatim>\<open>cygwait (evt)\<close> when the write is pending, the
  members of the \<^verbatim>\<open>IO_STATUS_BLOCK\<close>, the result of \<^verbatim>\<open>isclosed\<close> and the last error.
\<close>

record write_env =
  wr_NtWriteFile :: NTSTATUS
  wr_cygwait :: DWORD
  wr_io_Status :: NTSTATUS
  wr_io_Information :: "64 word"
  wr_isclosed :: bool
  wr_GetLastError :: DWORD

text \<open>The answer to \<^verbatim>\<open>CreateEvent\<close> at the start of a blocking write.\<close>

record write_start_env =
  ws_CreateEvent :: HANDLE
  ws_GetLastError :: DWORD

text \<open>The locals of \<^verbatim>\<open>raw_write\<close> that its loop changes.\<close>

record raw_write_locals =
  l_ptr :: "64 word"
  l_len :: size_t
  l_nbytes :: size_t
  l_ret :: ssize_t
  l_status :: NTSTATUS

text \<open>
  Lines 774 to 779: \<^verbatim>\<open>waitret\<close> and \<^verbatim>\<open>status\<close> once the write was issued and, when it is
  pending on a blocking FIFO, waited for.
\<close>

definition write_waitret :: "HANDLE \<Rightarrow> write_env \<Rightarrow> DWORD" where
  "write_waitret evt e =
     (if evt \<noteq> NULL \<and> wr_NtWriteFile e = STATUS_PENDING then wr_cygwait e else WAIT_OBJECT_0)"

definition write_status :: "HANDLE \<Rightarrow> write_env \<Rightarrow> NTSTATUS" where
  "write_status evt e =
     (if evt \<noteq> NULL \<and> wr_NtWriteFile e = STATUS_PENDING \<and> wr_cygwait e = WAIT_OBJECT_0
      then wr_io_Status e else wr_NtWriteFile e)"

text \<open>
  One pass of the \<^verbatim>\<open>while (nbytes < len)\<close> loop. The triple is the locals, the local
  \<^verbatim>\<open>nbytes_now\<close> and the state after the chain of \<^verbatim>\<open>if\<close>s; the last two statements
  of the body follow.
\<close>

definition raw_write_chunk ::
    "platform \<Rightarrow> HANDLE \<Rightarrow> ULONG \<Rightarrow> write_env \<Rightarrow> raw_write_locals \<Rightarrow> world \<Rightarrow> raw_write_locals \<times> world" where
  "raw_write_chunk pf evt chunk e l w =
     (let left = l_len l - l_nbytes l;
          len1 = (if ucast chunk < left then chunk else ucast left);
          w1 = do_call (NtWriteFile (get_handle w) evt (l_ptr l) len1) w;
          w2 = (if evt \<noteq> NULL \<and> wr_NtWriteFile e = STATUS_PENDING
                then do_call (cygwait evt INFINITE) w1 else w1);
          waitret = write_waitret evt e;
          status = write_status evt e;
          (l3, nbytes_now, w3) =
            (if waitret = WAIT_CANCELED then
               (l\<lparr>l_status := STATUS_THREAD_CANCELED\<rparr>, 0, w2)
             else if waitret = WAIT_SIGNALED then
               (l\<lparr>l_status := STATUS_THREAD_SIGNALED\<rparr>, 0, w2)
             else if wr_isclosed e then
               (l\<lparr>l_status := status\<rparr>, 0,
                if waitret = WAIT_OBJECT_0 then set_errno EBADF w2
                else set_errno (geterrno_from_win_error pf (wr_GetLastError e)) w2)
             else if NT_SUCCESS status then
               (l\<lparr>l_status := status,
                  l_ptr := l_ptr l + ucast chunk,
                  l_nbytes := l_nbytes l + wr_io_Information e\<rparr>,
                wr_io_Information e,
                if wr_io_Information e = 0 then set_errno EAGAIN w2 else w2)
             else if STATUS_PIPE_IS_CLOSED status then
               (l\<lparr>l_status := status\<rparr>, 0, do_call (raise SIGPIPE) (set_errno EPIPE w2))
             else
               (l\<lparr>l_status := status\<rparr>, 0, set_errno (geterrno_from_nt_status pf status) w2));
          l4 = (if nbytes_now = 0 then l3\<lparr>l_len := 0\<rparr> else l3);
          l5 = (if 0 < l_nbytes l4 then l4\<lparr>l_ret := l_nbytes l4\<rparr> else l4)
      in (l5, w3))"

text \<open>
  The loop: one answer of the platform per pass; \<open>None\<close> when the loop wants another
  pass and the answers are used up.
\<close>

fun raw_write_loop ::
    "platform \<Rightarrow> HANDLE \<Rightarrow> ULONG \<Rightarrow> write_env list \<Rightarrow> raw_write_locals \<Rightarrow> world
       \<Rightarrow> (raw_write_locals \<times> world) option" where
  "raw_write_loop pf evt chunk [] l w = (if l_nbytes l < l_len l then None else Some (l, w))"
| "raw_write_loop pf evt chunk (e # es) l w =
     (if l_nbytes l < l_len l then
        (case raw_write_chunk pf evt chunk e l w of (l', w') \<Rightarrow> raw_write_loop pf evt chunk es l' w')
      else Some (l, w))"

text \<open>\<^verbatim>\<open>raw_write (ptr, len)\<close>; \<open>p\<close> is \<^verbatim>\<open>ptr\<close> and \<open>n\<close> is \<^verbatim>\<open>len\<close> on entry.\<close>

definition raw_write ::
    "platform \<Rightarrow> write_start_env \<Rightarrow> write_env list \<Rightarrow> 64 word \<Rightarrow> size_t \<Rightarrow> world
       \<Rightarrow> (ssize_t outcome \<times> world) option" where
  "raw_write pf se es p n w =
     (if n = 0 then Some (Returned 0, w)
      else
        (let (chunk, n1) =
               (if n \<le> max_atomic_write (obj w) then (ucast n :: ULONG, n)
                else if is_nonblocking w then
                  (ucast (max_atomic_write (obj w)), max_atomic_write (obj w))
                else (ucast (max_atomic_write (obj w)), n));
             evt = (if is_nonblocking w then NULL else ws_CreateEvent se);
             w1 = (if is_nonblocking w then w else do_call CreateEvent w)
         in if \<not> is_nonblocking w \<and> evt = NULL then
              Some (Returned (- 1), set_errno (geterrno_from_win_error pf (ws_GetLastError se)) w1)
            else
              (case raw_write_loop pf evt chunk es
                      \<lparr>l_ptr = p, l_len = n1, l_nbytes = 0, l_ret = - 1,
                       l_status = STATUS_SUCCESS\<rparr> w1 of
                 None \<Rightarrow> None
               | Some (l, w2) \<Rightarrow>
                   (let w3 = (if evt \<noteq> NULL then do_call (NtClose evt) w2 else w2) in
                    if l_status l = STATUS_THREAD_SIGNALED \<and> sint (l_ret l) < 0 then
                      Some (Returned (l_ret l), set_errno EINTR w3)
                    else if l_status l = STATUS_THREAD_CANCELED then Some (Cancelled, w3)
                    else Some (Returned (l_ret l), w3)))))"

subsection \<open>Events and pipe instances\<close>

text \<open>
  The answer to \<^verbatim>\<open>NtCreateEvent\<close>: its status and the handle it writes. A call that
  fails leaves the variable it would write as it was.
\<close>

record event_env =
  ce_status :: NTSTATUS
  ce_handle :: HANDLE

definition create_event :: "platform \<Rightarrow> event_env \<Rightarrow> world \<Rightarrow> HANDLE \<times> world" where
  "create_event pf e w =
     (let w1 = do_call NtCreateEvent w in
      if \<not> NT_SUCCESS (ce_status e) then
        (NULL, set_errno (geterrno_from_nt_status pf (ce_status e)) w1)
      else (ce_handle e, w1))"

definition arm :: "bool \<Rightarrow> HANDLE \<Rightarrow> world \<Rightarrow> bool \<times> world" where
  "arm res hnd w = (res, do_call (SetEvent hnd) w)"

definition set_pipe_non_blocking :: "HANDLE \<Rightarrow> bool \<Rightarrow> world \<Rightarrow> world" where
  "set_pipe_non_blocking ph nonblocking w =
     do_call (NtSetInformationFile ph
                (if nonblocking then FILE_PIPE_COMPLETE_OPERATION else FILE_PIPE_QUEUE_OPERATION)) w"

text \<open>
  The answers to \<^verbatim>\<open>npfs_handle\<close> and to the call that creates or opens the pipe
  (\<^verbatim>\<open>NtCreateNamedPipeFile\<close> in \<^verbatim>\<open>create_pipe_instance\<close>, \<^verbatim>\<open>NtOpenFile\<close> in
  \<^verbatim>\<open>open_pipe\<close>).
\<close>

record pipe_env =
  pe_npfs_handle :: NTSTATUS
  pe_status :: NTSTATUS
  pe_handle :: HANDLE

definition create_pipe_instance :: "platform \<Rightarrow> pipe_env \<Rightarrow> bool \<Rightarrow> world \<Rightarrow> HANDLE \<times> world" where
  "create_pipe_instance pf e first w =
     (if \<not> NT_SUCCESS (pe_npfs_handle e) then
        (NULL, set_errno (geterrno_from_nt_status pf (pe_npfs_handle e)) w)
      else
        (let w1 = do_call (NtCreateNamedPipeFile first (\<not> O_CLOEXEC (openflags (obj w)))
                             FILE_PIPE_QUEUE_OPERATION) w
         in if \<not> NT_SUCCESS (pe_status e) then
              (NULL, set_errno (geterrno_from_nt_status pf (pe_status e)) w1)
            else (pe_handle e, w1)))"

text \<open>\<^verbatim>\<open>open_pipe (ph)\<close>: the status and the new value of \<^verbatim>\<open>ph\<close>.\<close>

definition open_pipe :: "pipe_env \<Rightarrow> HANDLE \<Rightarrow> world \<Rightarrow> (NTSTATUS \<times> HANDLE) \<times> world" where
  "open_pipe e ph w =
     (if \<not> NT_SUCCESS (pe_npfs_handle e) then ((pe_npfs_handle e, ph), w)
      else
        (let w1 = do_call (NtOpenFile_pipe (\<not> O_CLOEXEC (openflags (obj w)))) w in
         ((pe_status e, if NT_SUCCESS (pe_status e) then pe_handle e else ph), w1)))"

subsection \<open>The client handler table\<close>

definition add_client_handler :: "platform \<Rightarrow> pipe_env \<Rightarrow> world \<Rightarrow> int \<times> world" where
  "add_client_handler pf e w =
     (let first = (nhandlers w = 0) in
      if nhandlers w = MAX_CLIENTS pf then (- 1, set_errno EMFILE w)
      else
        (case create_pipe_instance pf e first w of
           (ph, w1) \<Rightarrow>
             if ph = NULL then (- 1, w1)
             else (0, w1\<lparr>obj := (obj w1)\<lparr>fc_handler :=
                          fc_handler (obj w1) @ [\<lparr>h = ph, state = fc_listening\<rparr>]\<rparr>\<rparr>)))"

text \<open>
  \<^verbatim>\<open>delete_client_handler (i)\<close>: the handle is closed and the entries after \<open>i\<close> move
  down by one.
\<close>

definition delete_client_handler :: "nat \<Rightarrow> world \<Rightarrow> world" where
  "delete_client_handler i w =
     (let w1 = do_call (NtClose (get_fc_handle w i)) w in
      w1\<lparr>obj := (obj w1)\<lparr>fc_handler :=
            take i (fc_handler (obj w1)) @ drop (Suc i) (fc_handler (obj w1))\<rparr>\<rparr>)"

text \<open>
  \<^verbatim>\<open>record_connection (fc)\<close>, where \<open>i\<close> is the index of the entry \<open>fc\<close> refers to.
\<close>

definition record_connection :: "nat \<Rightarrow> world \<Rightarrow> world" where
  "record_connection i w =
     (let w1 = do_call (SetEvent (write_ready (obj w))) w;
          w2 = set_fc_state i fc_connected w1;
          w3 = add_nconnected 1 w2
      in set_pipe_non_blocking (get_fc_handle w3 i) True w3)"

text \<open>
  \<^verbatim>\<open>fifo_client_handler::pipe_state\<close> of the handle \<open>hnd\<close>. The two state constants are
  those of the platform headers.
\<close>

record pipe_state_env =
  ps_status :: NTSTATUS
  ps_ReadDataAvailable :: ULONG
  ps_NamedPipeState :: ULONG

definition FILE_PIPE_CONNECTED_STATE :: int where "FILE_PIPE_CONNECTED_STATE = 3"
definition FILE_PIPE_INPUT_AVAILABLE_STATE :: int where "FILE_PIPE_INPUT_AVAILABLE_STATE = 5"

definition pipe_state :: "platform \<Rightarrow> pipe_state_env \<Rightarrow> HANDLE \<Rightarrow> world \<Rightarrow> int \<times> world" where
  "pipe_state pf e hnd w =
     (let w1 = do_call (NtQueryInformationFile hnd) w in
      if \<not> NT_SUCCESS (ps_status e) then
        (- 1, set_errno (geterrno_from_nt_status pf (ps_status e)) w1)
      else if 0 < ps_ReadDataAvailable e then (FILE_PIPE_INPUT_AVAILABLE_STATE, w1)
      else (uint (ps_NamedPipeState e), w1))"

subsection \<open>The fifo\_reader thread\<close>

text \<open>
  The loop of \<^verbatim>\<open>thread_func\<close> that deletes the invalid handlers, from index \<open>i\<close>.
\<close>

function delete_invalid :: "nat \<Rightarrow> world \<Rightarrow> world" where
  "delete_invalid i w =
     (if i < nhandlers w then
        (if state (fc_handler (obj w) ! i) = fc_invalid
         then delete_invalid i (delete_client_handler i w)
         else delete_invalid (i + 1) w)
      else w)"
  by pat_completeness auto
termination
  by (relation "measure (\<lambda>(i, w). nhandlers w - i)")
     (auto simp: nhandlers_def delete_client_handler_def do_call_def Let_def)

declare delete_invalid.simps [simp del]

text \<open>
  What the platform answers during one pass of the loop of \<^verbatim>\<open>thread_func\<close>. A wait
  with no timeout is taken to return; its result is the platform's answer.
\<close>

record listen_env =
  le_create_pipe_instance :: pipe_env
  le_NtFsControlFile :: NTSTATUS
  le_WaitForMultipleObjects :: DWORD
  le_io_Status :: NTSTATUS
  le_open_pipe :: pipe_env
  le_pipe_state :: pipe_state_env

text \<open>A pass ends with \<^verbatim>\<open>continue\<close> (or by reaching the end of the body) or at \<^verbatim>\<open>canceled\<close>.\<close>

datatype frt_pass = Continue world | Canceled world

text \<open>
  The pass from the second \<^verbatim>\<open>fifo_client_lock\<close> on, with the status of the listen; \<open>i\<close>
  is the index of the entry \<open>fc\<close> refers to.
\<close>

definition after_listen :: "platform \<Rightarrow> HANDLE \<Rightarrow> listen_env \<Rightarrow> nat \<Rightarrow> NTSTATUS \<Rightarrow> world \<Rightarrow> frt_pass" where
  "after_listen pf conn_evt e i status w =
     (let w1 = do_call fifo_client_lock w;
          (cancel, w2) =
            (if status = STATUS_SUCCESS \<or> status = STATUS_PIPE_CONNECTED then
               (False, do_call (ResetEvent conn_evt) (record_connection i w1))
             else if status = STATUS_THREAD_IS_TERMINATING then
               (case open_pipe (le_open_pipe e) NULL w1 of
                  ((status2, ph), w3) \<Rightarrow>
                    (let w5 =
                       (if NT_SUCCESS status2
                           \<and> (NT_SUCCESS (le_io_Status e) \<or> le_io_Status e = STATUS_PIPE_CONNECTED)
                        then delete_client_handler (nhandlers w3 - 1) w3
                        else
                          (case pipe_state pf (le_pipe_state e) (get_fc_handle w3 i) w3 of
                             (ps, w4) \<Rightarrow>
                               if ps = FILE_PIPE_CONNECTED_STATE \<or> ps = FILE_PIPE_INPUT_AVAILABLE_STATE
                               then record_connection i w4
                               else delete_client_handler (nhandlers w4 - 1) w4))
                     in (True, if ph \<noteq> NULL then do_call (NtClose ph) w5 else w5)))
             else (False, delete_client_handler (nhandlers w1 - 1) w1));
          w6 = do_call (ResetEvent (listening_evt (obj w2))) (do_call fifo_client_unlock w2)
      in if cancel then Canceled w6 else Continue w6)"

text \<open>One pass of the \<^verbatim>\<open>while (1)\<close> loop of \<^verbatim>\<open>thread_func\<close>.\<close>

definition thread_func_pass :: "platform \<Rightarrow> HANDLE \<Rightarrow> listen_env \<Rightarrow> world \<Rightarrow> frt_pass" where
  "thread_func_pass pf conn_evt e w =
     (let w1 = do_call owner_lock w;
          cur_owner = get_owner w1
      in if \<not> fr_id_bool cur_owner then
           Continue (do_call owner_unlock (set_owner (me (obj w1)) w1))
         else if cur_owner \<noteq> me (obj w1) then
           Canceled (do_call (WaitForSingleObject (cancel_evt (obj w1)) INFINITE)
                      (do_call owner_unlock w1))
         else
           (let w2 = do_call fifo_client_lock (do_call owner_unlock w1);
                w3 = delete_invalid 0 w2
            in case add_client_handler pf (le_create_pipe_instance e) w3 of
                 (r, w4) \<Rightarrow>
                   if r < 0 then Canceled (do_call fifo_client_unlock w4)
                   else
                     (let i = nhandlers w4 - 1;
                          w5 = do_call (SetEvent (listening_evt (obj w4)))
                                 (do_call fifo_client_unlock w4);
                          w6 = do_call (NtFsControlFile_LISTEN (get_fc_handle w5 i) conn_evt) w5
                      in if le_NtFsControlFile e = STATUS_PENDING then
                           (let w7 = do_call (WaitForMultipleObjects conn_evt (cancel_evt (obj w6))) w6
                            in if le_WaitForMultipleObjects e = WAIT_OBJECT_0 then
                                 after_listen pf conn_evt e i (le_io_Status e) w7
                               else if le_WaitForMultipleObjects e = WAIT_OBJECT_0 + 1 then
                                 after_listen pf conn_evt e i STATUS_THREAD_IS_TERMINATING w7
                               else Continue (delete_client_handler (nhandlers w7 - 1) w7))
                         else after_listen pf conn_evt e i (le_NtFsControlFile e) w6)))"

fun thread_func_loop :: "platform \<Rightarrow> HANDLE \<Rightarrow> listen_env list \<Rightarrow> world \<Rightarrow> world option" where
  "thread_func_loop pf conn_evt [] w = None"
| "thread_func_loop pf conn_evt (e # es) w =
     (case thread_func_pass pf conn_evt e w of
        Continue w' \<Rightarrow> thread_func_loop pf conn_evt es w'
      | Canceled w' \<Rightarrow> Some w')"

text \<open>
  \<^verbatim>\<open>thread_func\<close>: the event, the loop, and the code at \<^verbatim>\<open>canceled\<close>. It returns 0.
  \<open>None\<close> is a thread still in its loop when the answers are used up.
\<close>

definition thread_func :: "platform \<Rightarrow> event_env \<Rightarrow> listen_env list \<Rightarrow> world \<Rightarrow> (DWORD \<times> world) option" where
  "thread_func pf ce es w =
     (case create_event pf ce w of
        (conn_evt, w1) \<Rightarrow>
          if conn_evt = NULL then Some (0, do_call auto_release w1)
          else
            (case thread_func_loop pf conn_evt es w1 of
               None \<Rightarrow> None
             | Some w2 \<Rightarrow> Some (0, do_call auto_release (do_call (NtClose conn_evt) w2))))"

text \<open>
  \<^verbatim>\<open>fifo_reader_thread\<close>, the function of the thread that \<^verbatim>\<open>open\<close> starts: it runs
  \<^verbatim>\<open>thread_func\<close> on the object. The state is given as the thread that started it and
  waits for its end sees it: errno is a variable of each thread, so the run leaves the
  errno of the waiting thread as it was. \<open>None\<close> is a thread that has not ended when the
  answers are used up.
\<close>

definition fifo_reader_thread :: "platform \<Rightarrow> event_env \<Rightarrow> listen_env list \<Rightarrow> world \<Rightarrow> world option" where
  "fifo_reader_thread pf ce es w =
     (case thread_func pf ce es w of
        None \<Rightarrow> None
      | Some (r, w') \<Rightarrow> Some (w'\<lparr>errno := errno w\<rparr>))"

subsection \<open>Opening and closing\<close>

record shmem_env =
  se_NtCreateSection :: NTSTATUS
  se_NtOpenSection :: NTSTATUS
  se_sect :: HANDLE
  se_NtMapViewOfSection :: NTSTATUS
  se_addr :: "64 word"

definition create_shmem :: "platform \<Rightarrow> shmem_env \<Rightarrow> world \<Rightarrow> int \<times> world" where
  "create_shmem pf e w =
     (let w1 = do_call NtCreateSection w;
          collision = (se_NtCreateSection e = STATUS_OBJECT_NAME_COLLISION);
          w2 = (if collision then do_call NtOpenSection w1 else w1);
          status = (if collision then se_NtOpenSection e else se_NtCreateSection e)
      in if \<not> NT_SUCCESS status then (- 1, set_errno (geterrno_from_nt_status pf status) w2)
         else
           (let w3 = do_call (NtMapViewOfSection (se_sect e)) w2 in
            if \<not> NT_SUCCESS (se_NtMapViewOfSection e) then
              (- 1, set_errno (geterrno_from_nt_status pf (se_NtMapViewOfSection e))
                      (do_call (NtClose (se_sect e)) w3))
            else (0, w3\<lparr>obj := (obj w3)\<lparr>shmem_handle := se_sect e, shmem := se_addr e\<rparr>\<rparr>)))"

text \<open>
  \<^verbatim>\<open>wait (h)\<close>; \<open>res\<close> is the result of \<^verbatim>\<open>cygwait\<close> and \<open>last_error\<close> the last error.
\<close>

definition wait :: "platform \<Rightarrow> DWORD \<Rightarrow> DWORD \<Rightarrow> HANDLE \<Rightarrow> world \<Rightarrow> bool outcome \<times> world" where
  "wait pf res last_error hnd w =
     (let tmo = (if (hnd = read_ready (obj w) \<or> hnd = write_ready (obj w))
                    \<and> O_NONBLOCK (openflags (obj w)) then timeout_0 else INFINITE);
          w1 = do_call (cygwait hnd tmo) w
      in if res = WAIT_OBJECT_0 then (Returned True, w1)
         else if res = WAIT_SIGNALED then (Returned False, set_errno EINTR w1)
         else if res = WAIT_CANCELED then (Cancelled, w1)
         else if res = WAIT_TIMEOUT then
           (if hnd = write_ready (obj w) then (Returned True, w1)
            else (Returned False, set_errno ENXIO w1))
         else (Returned False, set_errno (geterrno_from_win_error pf last_error) w1))"

definition cancel_reader_thread :: "world \<Rightarrow> world" where
  "cancel_reader_thread w =
     (let w1 = (if cancel_evt (obj w) \<noteq> NULL then do_call (SetEvent (cancel_evt (obj w))) w else w)
      in if sync_thr (obj w1) \<noteq> NULL then
           do_call (NtClose (sync_thr (obj w1)))
             (do_call (WaitForSingleObject (sync_thr (obj w1)) INFINITE) w1)
         else w1)"

text \<open>The labels at the end of \<^verbatim>\<open>open\<close>, each falling through to the next.\<close>

definition err :: "world \<Rightarrow> world" where
  "err w = (if get_handle w \<noteq> NULL then do_call (NtClose (get_handle w)) w else w)"

definition err_close_read_ready :: "world \<Rightarrow> world" where
  "err_close_read_ready w = err (do_call (NtClose (read_ready (obj w))) w)"

definition err_close_write_ready :: "world \<Rightarrow> world" where
  "err_close_write_ready w = err_close_read_ready (do_call (NtClose (write_ready (obj w))) w)"

definition err_close_shmem :: "world \<Rightarrow> world" where
  "err_close_shmem w =
     err_close_write_ready
       (do_call (NtClose (shmem_handle (obj w))) (do_call (NtUnmapViewOfSection (shmem (obj w))) w))"

definition err_close_listening_evt :: "world \<Rightarrow> world" where
  "err_close_listening_evt w = err_close_shmem (do_call (NtClose (listening_evt (obj w))) w)"

definition err_close_cancel_evt :: "world \<Rightarrow> world" where
  "err_close_cancel_evt w = err_close_listening_evt (do_call (NtClose (cancel_evt (obj w))) w)"

text \<open>
  What the platform answers to one pass of the writer's loop in \<^verbatim>\<open>open\<close>, and to the
  rest of \<^verbatim>\<open>open\<close>. \<open>oe_this\<close> is the address of the object. \<open>oe_conn_evt\<close> and
  \<open>oe_frt\<close> are the answers to the fifo\_reader thread that \<^verbatim>\<open>open\<close> starts: to its
  \<^verbatim>\<open>create_event\<close> and to the passes of its loop.
\<close>

record writer_env =
  we_cygwait :: DWORD
  we_open_pipe :: pipe_env
  we_arm :: bool
  we_GetLastError :: DWORD

record open_env =
  oe_open_fs :: int
  oe_read_ready :: HANDLE
  oe_write_ready :: HANDLE
  oe_GetLastError :: DWORD
  oe_arm :: bool
  oe_create_shmem :: shmem_env
  oe_listening_evt :: event_env
  oe_cancel_evt :: event_env
  oe_sync_thr :: event_env
  oe_GetCurrentProcessId :: DWORD
  oe_this :: "64 word"
  oe_open_pipe :: pipe_env
  oe_cygwait :: DWORD
  oe_writer :: "writer_env list"
  oe_conn_evt :: event_env
  oe_frt :: "listen_env list"

text \<open>
  The label \<^verbatim>\<open>err_cancel_frt\<close>. \<^verbatim>\<open>cancel_reader_thread\<close> returns when the thread that
  \<^verbatim>\<open>new cygthread\<close> started has ended. That thread ran beside \<^verbatim>\<open>open\<close>; between its
  start and this label \<^verbatim>\<open>open\<close> writes no member and no shared memory that the thread
  reads (what it does reaches the thread through the answers of the platform only), so
  the thread's whole run is placed here, before the calls of
  \<^verbatim>\<open>cancel_reader_thread\<close>. \<open>None\<close> is a thread that does not end. (On the
  paths of \<^verbatim>\<open>open\<close> that return 1 the thread goes on after \<^verbatim>\<open>open\<close> has returned; its
  run is then a run of \<^verbatim>\<open>thread_func\<close> on the state \<^verbatim>\<open>open\<close> leaves.)
\<close>

definition err_cancel_frt :: "platform \<Rightarrow> open_env \<Rightarrow> world \<Rightarrow> world option" where
  "err_cancel_frt pf e w =
     (case fifo_reader_thread pf (oe_conn_evt e) (oe_frt e) w of
        None \<Rightarrow> None
      | Some wj \<Rightarrow>
          (let w1 = do_call reader_lock (cancel_reader_thread wj);
               w2 = (if get_nreaders w1 = 0
                     then do_call (ResetEvent (read_ready (obj w1))) w1 else w1)
           in Some (err_close_cancel_evt
                      (do_call (NtClose (sync_thr (obj w2))) (do_call reader_unlock w2)))))"

text \<open>\<^verbatim>\<open>goto err_cancel_frt\<close>, and the \<^verbatim>\<open>return 0\<close> the labels end in.\<close>

definition goto_err_cancel_frt :: "platform \<Rightarrow> open_env \<Rightarrow> world \<Rightarrow> (int outcome \<times> world) option" where
  "goto_err_cancel_frt pf e w =
     (case err_cancel_frt pf e w of None \<Rightarrow> None | Some w' \<Rightarrow> Some (Returned 0, w'))"

definition set_handle :: "HANDLE \<Rightarrow> world \<Rightarrow> world" where
  "set_handle ph w = w\<lparr>obj := (obj w)\<lparr>io_handle := ph\<rparr>\<rparr>"

text \<open>
  The reader's part of \<^verbatim>\<open>open\<close>, from \<^verbatim>\<open>if (reader)\<close> to \<^verbatim>\<open>goto success\<close>.
\<close>

definition open_reader :: "platform \<Rightarrow> open_env \<Rightarrow> open_flags \<Rightarrow> world \<Rightarrow> (int outcome \<times> world) option" where
  "open_reader pf e fl w =
     (case arm (oe_arm e) (read_ready (obj w)) w of (res, w1) \<Rightarrow>
      if \<not> res then
        Some (Returned 0,
              err_close_write_ready (set_errno (geterrno_from_win_error pf (oe_GetLastError e)) w1))
      else
      (case create_shmem pf (oe_create_shmem e) w1 of (r, w2) \<Rightarrow>
       if r < 0 then Some (Returned 0, err_close_write_ready w2)
       else
       (case create_event pf (oe_listening_evt e) w2 of (levt, w3') \<Rightarrow>
        let w3 = w3'\<lparr>obj := (obj w3')\<lparr>listening_evt := levt\<rparr>\<rparr> in
        if levt = NULL then Some (Returned 0, err_close_shmem w3)
        else
        (case create_event pf (oe_cancel_evt e) w3 of (cevt, w4') \<Rightarrow>
         let w4 = w4'\<lparr>obj := (obj w4')\<lparr>cancel_evt := cevt\<rparr>\<rparr> in
         if cevt = NULL then Some (Returned 0, err_close_listening_evt w4)
         else
         (case create_event pf (oe_sync_thr e) w4 of (sevt, w5') \<Rightarrow>
          let w5 = w5'\<lparr>obj := (obj w5')\<lparr>sync_thr := sevt\<rparr>\<rparr> in
          if sevt = NULL then Some (Returned 0, err_close_cancel_evt w5)
          else
            (let w6 = w5\<lparr>obj := (obj w5)\<lparr>me := \<lparr>winpid = oe_GetCurrentProcessId e,
                                                   fh = oe_this e\<rparr>\<rparr>\<rparr>;
                 w7 = do_call (new_cygthread (sync_thr (obj w6))) w6;
                 w8 = do_call reader_lock w7
             in if 0 < get_nreaders w8 then
                  goto_err_cancel_frt pf e (do_call reader_unlock (set_errno ENOTSUP w8))
                else
                  (let w9 = do_call reader_unlock w8 in
                   if duplexer (obj w9) then
                     (let w10 = do_call (WaitForSingleObject (listening_evt (obj w9)) INFINITE) w9 in
                      case open_pipe (oe_open_pipe e) NULL w10 of ((status, ph), w11) \<Rightarrow>
                        if NT_SUCCESS status then
                          Some (Returned 1,
                                do_call reader_unlock (inc_nreaders (do_call reader_lock
                                  (set_pipe_non_blocking ph (O_NONBLOCK fl) (set_handle ph w11)))))
                        else
                          goto_err_cancel_frt pf e
                            (set_errno (geterrno_from_nt_status pf status) w11))
                   else
                     (case wait pf (oe_cygwait e) (oe_GetLastError e) (write_ready (obj w9)) w9 of
                        (Cancelled, w10) \<Rightarrow> Some (Cancelled, w10)
                      | (Returned False, w10) \<Rightarrow> goto_err_cancel_frt pf e w10
                      | (Returned True, w10) \<Rightarrow>
                          Some (Returned 1,
                                do_call reader_unlock (inc_nreaders (do_call reader_lock w10)))))))))))"

text \<open>
  The writer's \<^verbatim>\<open>while (1)\<close> loop in \<^verbatim>\<open>open\<close>; \<open>None\<close> is a loop still retrying when
  the answers are used up.
\<close>

fun open_writer_loop :: "platform \<Rightarrow> writer_env list \<Rightarrow> open_flags \<Rightarrow> world \<Rightarrow> (int outcome \<times> world) option" where
  "open_writer_loop pf [] fl w = None"
| "open_writer_loop pf (e # es) fl w =
     (case wait pf (we_cygwait e) (we_GetLastError e) (read_ready (obj w)) w of
        (Cancelled, w1) \<Rightarrow> Some (Cancelled, w1)
      | (Returned False, w1) \<Rightarrow> Some (Returned 0, err_close_write_ready w1)
      | (Returned True, w1) \<Rightarrow>
          (let w2 = do_call (WaitForSingleObject (listening_evt (obj w1)) INFINITE) w1 in
           case open_pipe (we_open_pipe e) (get_handle w2) w2 of ((status, ph), w3') \<Rightarrow>
             (let w3 = set_handle ph w3' in
              if NT_SUCCESS status then
                (case arm (we_arm e) (write_ready (obj w3))
                        (set_pipe_non_blocking (get_handle w3) (O_NONBLOCK fl) w3) of
                   (res, w4) \<Rightarrow>
                     if \<not> res then
                       Some (Returned 0,
                             err_close_write_ready
                               (set_errno (geterrno_from_win_error pf (we_GetLastError e)) w4))
                     else Some (Returned 1, w4))
              else if STATUS_PIPE_NO_INSTANCE_AVAILABLE status then
                open_writer_loop pf es fl (do_call (Sleep 1) w3)
              else
                Some (Returned 0,
                      err_close_write_ready (set_errno (geterrno_from_nt_status pf status) w3)))))"

text \<open>
  \<^verbatim>\<open>open (flags, mode)\<close>; \<open>fl\<close> is \<^verbatim>\<open>flags\<close>. The function is named \<open>fifo_open\<close>
  because \<open>open\<close> is a keyword of Isabelle.
\<close>

definition fifo_open :: "platform \<Rightarrow> open_env \<Rightarrow> open_flags \<Rightarrow> world \<Rightarrow> (int outcome \<times> world) option" where
  "fifo_open pf e fl w =
     (if O_PATH fl then Some (Returned (oe_open_fs e), do_call open_fs w)
      else if accmode fl = O_ACCMODE_3 then Some (Returned 0, err (set_errno EINVAL w))
      else
        (let w1 = (case accmode fl of
                     O_RDONLY \<Rightarrow> w\<lparr>obj := (obj w)\<lparr>reader := True\<rparr>\<rparr>
                   | O_WRONLY \<Rightarrow> w\<lparr>obj := (obj w)\<lparr>writer := True\<rparr>\<rparr>
                   | _ \<Rightarrow> w\<lparr>obj := (obj w)\<lparr>reader := True, duplexer := True\<rparr>\<rparr>);
             w2 = w1\<lparr>obj := (obj w1)\<lparr>openflags := fl\<rparr>\<rparr>;
             w3 = (if reader (obj w2) \<and> \<not> duplexer (obj w2)
                   then w2\<lparr>obj := (obj w2)\<lparr>nohandle := True\<rparr>\<rparr> else w2);
             w4 = (do_call CreateEvent w3)\<lparr>obj := (obj w3)\<lparr>read_ready := oe_read_ready e\<rparr>\<rparr>
         in if read_ready (obj w4) = NULL then
              Some (Returned 0, err (set_errno (geterrno_from_win_error pf (oe_GetLastError e)) w4))
            else
              (let w5 = (do_call CreateEvent w4)\<lparr>obj := (obj w4)\<lparr>write_ready := oe_write_ready e\<rparr>\<rparr>
               in if write_ready (obj w5) = NULL then
                    Some (Returned 0,
                          err_close_read_ready
                            (set_errno (geterrno_from_win_error pf (oe_GetLastError e)) w5))
                  else if reader (obj w5) then open_reader pf e fl w5
                  else if writer (obj w5) then open_writer_loop pf (oe_writer e) fl w5
                  else Some (Returned 1, w5))))"

text \<open>
  \<^verbatim>\<open>close\<close>; \<open>base_close\<close> is what \<^verbatim>\<open>fhandler_base::close\<close> returns. The shared
  memory of a reader is taken to be mapped: the code reads the reader count and the owner
  through \<^verbatim>\<open>shmem\<close> before it tests \<^verbatim>\<open>shmem\<close>.
\<close>

definition close :: "int \<Rightarrow> world \<Rightarrow> int \<times> world" where
  "close base_close w =
     (let w9 =
        (if reader (obj w) then
           (let w1 = cancel_reader_thread w;
                w2 = (if cancel_evt (obj w1) \<noteq> NULL
                      then do_call (NtClose (cancel_evt (obj w1))) w1 else w1);
                w3 = do_call fifo_client_unlock
                       (fold (\<lambda>fc. do_call (NtClose (h fc))) (fc_handler (obj w2))
                          (do_call fifo_client_lock w2));
                w4 = do_call reader_lock w3;
                w5 = (if read_ready (obj w4) \<noteq> NULL then
                        (let w4' = dec_nreaders w4 in
                         if get_nreaders w4' = 0
                         then do_call (ResetEvent (read_ready (obj w4'))) w4' else w4')
                      else w4);
                w6 = do_call owner_lock (do_call reader_unlock w5);
                w7 = do_call owner_unlock
                       (if get_owner w6 = me (obj w6) then set_owner null_fr_id w6 else w6);
                w8 = (if shmem (obj w7) \<noteq> 0
                      then do_call (NtUnmapViewOfSection (shmem (obj w7))) w7 else w7)
            in if shmem_handle (obj w8) \<noteq> NULL
               then do_call (NtClose (shmem_handle (obj w8))) w8 else w8)
         else w);
          w10 = (if read_ready (obj w9) \<noteq> NULL
                 then do_call (NtClose (read_ready (obj w9))) w9 else w9);
          w11 = (if write_ready (obj w10) \<noteq> NULL
                 then do_call (NtClose (write_ready (obj w10))) w10 else w10)
      in (base_close, do_call fhandler_base_close w11))"

subsection \<open>The constructor and some states\<close>

text \<open>
  The constructor; \<open>bufsize\<close> is \<^verbatim>\<open>DEFAULT_PIPEBUFSIZE\<close>, a macro of another file.
  The constructor does not initialise \<^verbatim>\<open>listening_evt\<close>, which \<^verbatim>\<open>open\<close> sets before any
  use; the model gives it \<open>NULL\<close>.
\<close>

definition new_fhandler_fifo :: "size_t \<Rightarrow> fhandler_fifo" where
  "new_fhandler_fifo bufsize =
     \<lparr>read_ready = NULL, write_ready = NULL, cancel_evt = NULL, sync_thr = NULL,
      listening_evt = NULL, fc_handler = [], nconnected = 0,
      reader = False, writer = False, duplexer = False,
      max_atomic_write = bufsize, shmem_handle = NULL, shmem = 0, me = null_fr_id,
      io_handle = NULL,
      openflags = \<lparr>accmode = O_RDONLY, O_NONBLOCK = False, O_CLOEXEC = False, O_PATH = False\<rparr>,
      nohandle = False\<rparr>"

text \<open>
  States used to run the model: a platform with room for two client handlers, a blocking
  reader that owns the FIFO and has two writers connected, the same reader with no
  writer, a second reader of the same FIFO that is not the owner, a fresh object about to
  be opened while the first reader is open, the same while the first reader is counted
  but the owner field is still empty, and a blocking writer. The atomic write size
  \<^verbatim>\<open>DEFAULT_PIPEBUFSIZE\<close> is taken to be 65536.
\<close>

definition ex_platform :: platform where
  "ex_platform =
     \<lparr>MAX_CLIENTS = 2, geterrno_from_nt_status = (\<lambda>s. errno_other 5),
      geterrno_from_win_error = (\<lambda>c. errno_other 5)\<rparr>"

definition ex_id :: fifo_reader_id_t where
  "ex_id = \<lparr>winpid = 1000, fh = 0x5000\<rparr>"

definition ex_reader :: world where
  "ex_reader =
     \<lparr>obj = (new_fhandler_fifo 65536)
              \<lparr>read_ready := 0x10, write_ready := 0x14, cancel_evt := 0x18, sync_thr := 0x1C,
               listening_evt := 0x20,
               fc_handler := [\<lparr>h = 0x40, state = fc_connected\<rparr>, \<lparr>h = 0x44, state = fc_connected\<rparr>],
               nconnected := 2, reader := True, shmem_handle := 0x24, shmem := 0x7000,
               me := ex_id, nohandle := True\<rparr>,
      shm = \<lparr>nreaders = 1, owner = ex_id\<rparr>,
      errno = errno_other 0,
      calls = []\<rparr>"

definition ex_reader_no_writer :: world where
  "ex_reader_no_writer = ex_reader\<lparr>obj := (obj ex_reader)\<lparr>fc_handler := [], nconnected := 0\<rparr>\<rparr>"

definition ex_not_owner :: world where
  "ex_not_owner = ex_reader\<lparr>obj := (obj ex_reader)\<lparr>me := \<lparr>winpid = 1001, fh = 0x6000\<rparr>\<rparr>\<rparr>"

definition ex_fresh :: world where
  "ex_fresh =
     \<lparr>obj = new_fhandler_fifo 65536, shm = \<lparr>nreaders = 1, owner = ex_id\<rparr>,
      errno = errno_other 0, calls = []\<rparr>"

definition ex_unclaimed :: world where
  "ex_unclaimed = ex_fresh\<lparr>shm := \<lparr>nreaders = 1, owner = null_fr_id\<rparr>\<rparr>"

definition ex_writer :: world where
  "ex_writer =
     \<lparr>obj = (new_fhandler_fifo 65536)
              \<lparr>read_ready := 0x10, write_ready := 0x14, writer := True, io_handle := 0x30,
               openflags := \<lparr>accmode = O_WRONLY, O_NONBLOCK = False, O_CLOEXEC = False,
                              O_PATH = False\<rparr>\<rparr>,
      shm = \<lparr>nreaders = 1, owner = ex_id\<rparr>,
      errno = errno_other 0,
      calls = []\<rparr>"

text \<open>
  Answers of the platform: every call of the reader's set-up in \<^verbatim>\<open>open\<close> succeeds; a
  pass of the thread's loop in which a writer connects, and one in which the wait for a
  writer is ended by the cancel event and the connection made to end the listen succeeds.
\<close>

definition ex_pipe_env :: pipe_env where
  "ex_pipe_env = \<lparr>pe_npfs_handle = STATUS_SUCCESS, pe_status = STATUS_SUCCESS, pe_handle = 0x48\<rparr>"

definition ex_listen_env :: listen_env where
  "ex_listen_env =
     \<lparr>le_create_pipe_instance = ex_pipe_env, le_NtFsControlFile = STATUS_PENDING,
      le_WaitForMultipleObjects = WAIT_OBJECT_0, le_io_Status = STATUS_SUCCESS,
      le_open_pipe = ex_pipe_env,
      le_pipe_state = \<lparr>ps_status = STATUS_SUCCESS, ps_ReadDataAvailable = 0,
                        ps_NamedPipeState = 3\<rparr>\<rparr>"

definition ex_cancel_env :: listen_env where
  "ex_cancel_env = ex_listen_env\<lparr>le_WaitForMultipleObjects := WAIT_OBJECT_0 + 1\<rparr>"

definition ex_open_env :: open_env where
  "ex_open_env =
     \<lparr>oe_open_fs = 1, oe_read_ready = 0x50, oe_write_ready = 0x54, oe_GetLastError = 0,
      oe_arm = True,
      oe_create_shmem = \<lparr>se_NtCreateSection = STATUS_OBJECT_NAME_COLLISION,
                          se_NtOpenSection = STATUS_SUCCESS, se_sect = 0x58,
                          se_NtMapViewOfSection = STATUS_SUCCESS, se_addr = 0x8000\<rparr>,
      oe_listening_evt = \<lparr>ce_status = STATUS_SUCCESS, ce_handle = 0x5C\<rparr>,
      oe_cancel_evt = \<lparr>ce_status = STATUS_SUCCESS, ce_handle = 0x60\<rparr>,
      oe_sync_thr = \<lparr>ce_status = STATUS_SUCCESS, ce_handle = 0x64\<rparr>,
      oe_GetCurrentProcessId = 1002, oe_this = 0x9000,
      oe_open_pipe = ex_pipe_env, oe_cygwait = WAIT_OBJECT_0, oe_writer = [],
      oe_conn_evt = \<lparr>ce_status = STATUS_SUCCESS, ce_handle = 0x6C\<rparr>,
      oe_frt = [ex_cancel_env, ex_cancel_env]\<rparr>"

definition ex_rdonly :: open_flags where
  "ex_rdonly = \<lparr>accmode = O_RDONLY, O_NONBLOCK = False, O_CLOEXEC = False, O_PATH = False\<rparr>"

text \<open>A pass of the read loop in which nothing happens meanwhile and no handler has data.\<close>

definition ex_read_env :: read_env where
  "ex_read_env =
     \<lparr>rd_frt_eof = (\<lambda>x. x), rd_NtReadFile = (\<lambda>i. (STATUS_PIPE_EMPTY, 0)),
      rd_cygwait = WAIT_OBJECT_0, rd_call_signal_handler = False, rd_isclosed = False,
      rd_frt_pause = (\<lambda>x. x)\<rparr>"

text \<open>
  Answers to \<^verbatim>\<open>NtWriteFile\<close>: a write that completes at once with \<open>k\<close> bytes, one
  that finds the pipe broken, and each of the two with the descriptor found closed on
  return.
\<close>

definition ex_written :: "64 word \<Rightarrow> write_env" where
  "ex_written k =
     \<lparr>wr_NtWriteFile = STATUS_SUCCESS, wr_cygwait = WAIT_OBJECT_0, wr_io_Status = STATUS_SUCCESS,
      wr_io_Information = k, wr_isclosed = False, wr_GetLastError = 0\<rparr>"

definition ex_broken :: write_env where
  "ex_broken =
     \<lparr>wr_NtWriteFile = STATUS_PIPE_BROKEN, wr_cygwait = WAIT_OBJECT_0,
      wr_io_Status = STATUS_PIPE_BROKEN, wr_io_Information = 0, wr_isclosed = False,
      wr_GetLastError = 0\<rparr>"

definition ex_written_closed :: "64 word \<Rightarrow> write_env" where
  "ex_written_closed k = (ex_written k)\<lparr>wr_isclosed := True\<rparr>"

definition ex_broken_closed :: write_env where
  "ex_broken_closed = ex_broken\<lparr>wr_isclosed := True\<rparr>"

definition ex_write_start :: write_start_env where
  "ex_write_start = \<lparr>ws_CreateEvent = 0x68, ws_GetLastError = 0\<rparr>"

subsection \<open>The vocabulary of the properties\<close>

text \<open>The \<^verbatim>\<open>ResetEvent\<close> calls among the calls made so far.\<close>

definition is_ResetEvent :: "call \<Rightarrow> bool" where
  "is_ResetEvent c = (case c of ResetEvent x \<Rightarrow> True | _ \<Rightarrow> False)"

definition resets :: "world \<Rightarrow> call list" where
  "resets w = filter is_ResetEvent (calls w)"

text \<open>
  The platform grants what the reader's set-up in \<^verbatim>\<open>open\<close> asks for: both named
  events, the \<^verbatim>\<open>SetEvent\<close> of \<^verbatim>\<open>arm\<close>, the shared memory and the three events of
  the thread.
\<close>

definition event_granted :: "event_env \<Rightarrow> bool" where
  "event_granted e = (NT_SUCCESS (ce_status e) \<and> ce_handle e \<noteq> NULL)"

definition shmem_granted :: "shmem_env \<Rightarrow> bool" where
  "shmem_granted e =
     ((NT_SUCCESS (se_NtCreateSection e)
       \<or> (se_NtCreateSection e = STATUS_OBJECT_NAME_COLLISION \<and> NT_SUCCESS (se_NtOpenSection e)))
      \<and> NT_SUCCESS (se_NtMapViewOfSection e))"

definition reader_setup_granted :: "open_env \<Rightarrow> bool" where
  "reader_setup_granted e =
     (oe_read_ready e \<noteq> NULL \<and> oe_write_ready e \<noteq> NULL \<and> oe_arm e
      \<and> shmem_granted (oe_create_shmem e) \<and> event_granted (oe_listening_evt e)
      \<and> event_granted (oe_cancel_evt e) \<and> event_granted (oe_sync_thr e))"

text \<open>
  A pass of the thread's loop in which the wait for a writer is ended by the cancel
  event: the listen is pending and \<^verbatim>\<open>WaitForMultipleObjects\<close> returns the index of
  \<^verbatim>\<open>cancel_evt\<close>.
\<close>

definition cancel_wins :: "listen_env \<Rightarrow> bool" where
  "cancel_wins e =
     (le_NtFsControlFile e = STATUS_PENDING \<and> le_WaitForMultipleObjects e = WAIT_OBJECT_0 + 1)"

text \<open>
  The write engine as the specification words it, read off the answers of the platform
  alone. A chunk is finished, with a status, when \<^verbatim>\<open>NtWriteFile\<close> returns a status
  other than \<^verbatim>\<open>STATUS_PENDING\<close>, or when the write is pending on an endpoint that waits
  for it (it has an event) and the wait ends because the write is complete; the status
  is then that of the \<^verbatim>\<open>IO_STATUS_BLOCK\<close>. A chunk that finished with a success
  transferred \<^verbatim>\<open>io.Information\<close> bytes; any other chunk transferred none as far as the
  write can tell. The platform reports the pipe closed when the chunk finished with the
  status of a closing, a broken or an empty pipe.
\<close>

definition finished :: "HANDLE \<Rightarrow> write_env \<Rightarrow> NTSTATUS option" where
  "finished evt e =
     (if wr_NtWriteFile e \<noteq> STATUS_PENDING then Some (wr_NtWriteFile e)
      else if evt \<noteq> NULL \<and> wr_cygwait e = WAIT_OBJECT_0 then Some (wr_io_Status e)
      else None)"

definition transferred :: "HANDLE \<Rightarrow> write_env \<Rightarrow> nat" where
  "transferred evt e =
     (case finished evt e of
        None \<Rightarrow> 0
      | Some s \<Rightarrow> if NT_SUCCESS s then unat (wr_io_Information e) else 0)"

definition reports_closed :: "HANDLE \<Rightarrow> write_env \<Rightarrow> bool" where
  "reports_closed evt e =
     (finished evt e = Some STATUS_PIPE_CLOSING \<or> finished evt e = Some STATUS_PIPE_BROKEN
      \<or> finished evt e = Some STATUS_PIPE_EMPTY)"

text \<open>
  The bytes of a chunk that count: those it transferred, unless the descriptor is found
  closed when the chunk is over. The accumulated count of a write of \<open>n\<close> bytes adds up
  the counted bytes of the chunks in turn and stops at the first chunk that counts
  nothing, or when \<open>n\<close> bytes are reached; it is \<open>None\<close> when the answers are used up
  before.
\<close>

definition counted :: "HANDLE \<Rightarrow> write_env \<Rightarrow> nat" where
  "counted evt e = (if wr_isclosed e then 0 else transferred evt e)"

fun accumulated :: "HANDLE \<Rightarrow> nat \<Rightarrow> nat \<Rightarrow> write_env list \<Rightarrow> nat option" where
  "accumulated evt n acc [] = (if acc < n then None else Some acc)"
| "accumulated evt n acc (e # es) =
     (if acc < n then
        (if counted evt e = 0 then Some acc
         else accumulated evt n (acc + counted evt e) es)
      else Some acc)"

text \<open>
  The event a write waits on (none on a non-blocking FIFO), the length it works on (a
  non-blocking write longer than \<^verbatim>\<open>max_atomic_write\<close> is cut to it), the length of the
  next \<^verbatim>\<open>NtWriteFile\<close> (the local \<^verbatim>\<open>len1\<close>), and the accumulated count of the whole
  write: that of its chunks, and nothing when a blocking write could not create its event
  and so wrote no chunk.
\<close>

definition write_evt :: "write_start_env \<Rightarrow> world \<Rightarrow> HANDLE" where
  "write_evt se w = (if is_nonblocking w then NULL else ws_CreateEvent se)"

definition write_len :: "size_t \<Rightarrow> world \<Rightarrow> size_t" where
  "write_len n w =
     (if max_atomic_write (obj w) < n \<and> is_nonblocking w then max_atomic_write (obj w) else n)"

definition write_len1 :: "ULONG \<Rightarrow> raw_write_locals \<Rightarrow> ULONG" where
  "write_len1 chunk l =
     (if ucast chunk < l_len l - l_nbytes l then chunk else ucast (l_len l - l_nbytes l))"

definition total_counted :: "write_start_env \<Rightarrow> write_env list \<Rightarrow> size_t \<Rightarrow> world \<Rightarrow> nat option" where
  "total_counted se es n w =
     (if \<not> is_nonblocking w \<and> ws_CreateEvent se = NULL then Some 0
      else accumulated (write_evt se w) (unat (write_len n w)) 0 es)"

text \<open>
  The answers a write is written for: a write is left pending only on an endpoint that
  waits for it, the wait then ends with the write complete or with a signal (a
  cancelled wait ends the thread, and the write does not return), and the platform
  never answers with Cygwin's own status for a cancelled thread.
\<close>

definition expected :: "HANDLE \<Rightarrow> write_env \<Rightarrow> bool" where
  "expected evt e =
     ((wr_NtWriteFile e = STATUS_PENDING \<longrightarrow>
         evt \<noteq> NULL \<and> (wr_cygwait e = WAIT_OBJECT_0 \<or> wr_cygwait e = WAIT_SIGNALED))
      \<and> wr_NtWriteFile e \<noteq> STATUS_THREAD_CANCELED \<and> wr_io_Status e \<noteq> STATUS_THREAD_CANCELED)"

text \<open>The \<^verbatim>\<open>NtWriteFile\<close> calls among the calls of a write.\<close>

definition is_NtWriteFile :: "call \<Rightarrow> bool" where
  "is_NtWriteFile c = (case c of NtWriteFile hnd evt p n \<Rightarrow> True | _ \<Rightarrow> False)"

text \<open>
  The identity \<^verbatim>\<open>open\<close> gives the endpoint it opens for reading (the member \<^verbatim>\<open>me\<close>): the
  id of the process and the address of the object.
\<close>

definition opener_id :: "open_env \<Rightarrow> fifo_reader_id_t" where
  "opener_id e = \<lparr>winpid = oe_GetCurrentProcessId e, fh = oe_this e\<rparr>"

text \<open>
  What one endpoint may do to the owner field, as the specification words it: leave it,
  write its own identity into an empty field, or clear it while holding it.
\<close>

definition owner_step :: "fifo_reader_id_t \<Rightarrow> fifo_reader_id_t \<Rightarrow> fifo_reader_id_t \<Rightarrow> bool" where
  "owner_step self before after =
     (after = before \<or> (\<not> fr_id_bool before \<and> after = self)
      \<or> (before = self \<and> after = null_fr_id))"

text \<open>The state a pass of the thread's loop ends in.\<close>

fun frt_world :: "frt_pass \<Rightarrow> world" where
  "frt_world (Continue w) = w"
| "frt_world (Canceled w) = w"

section \<open>Properties\<close>

subsection \<open>What the basic steps change\<close>

lemmas status_defs =
  STATUS_SUCCESS_def STATUS_PENDING_def STATUS_BUFFER_OVERFLOW_def
  STATUS_OBJECT_NAME_COLLISION_def STATUS_THREAD_IS_TERMINATING_def
  STATUS_INSTANCE_NOT_AVAILABLE_def STATUS_PIPE_NOT_AVAILABLE_def STATUS_PIPE_BUSY_def
  STATUS_PIPE_CLOSING_def STATUS_PIPE_CONNECTED_def STATUS_PIPE_EMPTY_def
  STATUS_PIPE_BROKEN_def STATUS_THREAD_SIGNALED_def STATUS_THREAD_CANCELED_def

lemmas wait_defs = WAIT_OBJECT_0_def WAIT_SIGNALED_def WAIT_CANCELED_def WAIT_TIMEOUT_def

lemmas ex_defs =
  ex_platform_def ex_id_def ex_reader_def ex_reader_no_writer_def ex_not_owner_def
  ex_fresh_def ex_writer_def ex_pipe_env_def ex_open_env_def ex_rdonly_def ex_read_env_def
  ex_written_def ex_broken_def ex_write_start_def ex_listen_env_def new_fhandler_fifo_def
  ex_unclaimed_def ex_cancel_env_def ex_written_closed_def ex_broken_closed_def

lemma do_call_simps [simp]:
  "obj (do_call c w) = obj w" "shm (do_call c w) = shm w" "errno (do_call c w) = errno w"
  "calls (do_call c w) = calls w @ [c]"
  by (simp_all add: do_call_def)

lemma set_errno_simps [simp]:
  "obj (set_errno x w) = obj w" "shm (set_errno x w) = shm w" "errno (set_errno x w) = x"
  "calls (set_errno x w) = calls w"
  by (simp_all add: set_errno_def)

lemma if_call_keeps [simp]:
  "shm (if c then do_call k w else w) = shm w"
  "obj (if c then do_call k w else w) = obj w"
  "errno (if c then do_call k w else w) = errno w"
  by simp_all

lemma set_owner_simps [simp]:
  "obj (set_owner x w) = obj w" "owner (shm (set_owner x w)) = x"
  by (simp_all add: set_owner_def)

lemma inc_nreaders_simps [simp]:
  "obj (inc_nreaders w) = obj w" "owner (shm (inc_nreaders w)) = owner (shm w)"
  by (simp_all add: inc_nreaders_def)

lemma dec_nreaders_simps [simp]:
  "obj (dec_nreaders w) = obj w" "owner (shm (dec_nreaders w)) = owner (shm w)"
  by (simp_all add: dec_nreaders_def)

lemma set_handle_simps [simp]:
  "shm (set_handle ph w) = shm w" "me (obj (set_handle ph w)) = me (obj w)"
  "errno (set_handle ph w) = errno w"
  by (simp_all add: set_handle_def)

lemma get_handle_simps [simp]:
  "get_handle (do_call c w) = get_handle w"
  "get_handle (set_errno x w) = get_handle w"
  by (simp_all add: get_handle_def)

lemma set_fc_state_simps [simp]:
  "shm (set_fc_state i s w) = shm w" "me (obj (set_fc_state i s w)) = me (obj w)"
  "nhandlers (set_fc_state i s w) = nhandlers w"
  by (simp_all add: set_fc_state_def nhandlers_def)

lemma add_nconnected_simps [simp]:
  "shm (add_nconnected d w) = shm w" "me (obj (add_nconnected d w)) = me (obj w)"
  "nhandlers (add_nconnected d w) = nhandlers w"
  by (simp_all add: add_nconnected_def nhandlers_def)

lemma set_pipe_non_blocking_simps [simp]:
  "shm (set_pipe_non_blocking ph b w) = shm w" "obj (set_pipe_non_blocking ph b w) = obj w"
  "errno (set_pipe_non_blocking ph b w) = errno w"
  by (simp_all add: set_pipe_non_blocking_def)

lemma Sleep_1_simps [simp]:
  "shm (Sleep_1 frt w) = shm w" "errno (Sleep_1 frt w) = errno w"
  by (simp_all add: Sleep_1_def)

lemma resets_simps [simp]:
  "resets (do_call c w) = resets w @ (if is_ResetEvent c then [c] else [])"
  "resets (set_errno x w) = resets w"
  "resets (w\<lparr>obj := ob\<rparr>) = resets w"
  by (simp_all add: resets_def)

lemma is_ResetEvent_simps [simp]:
  "\<not> is_ResetEvent (NtClose x)" "\<not> is_ResetEvent (SetEvent x)"
  "\<not> is_ResetEvent (WaitForSingleObject x t)" "\<not> is_ResetEvent CreateEvent"
  "\<not> is_ResetEvent NtCreateEvent" "\<not> is_ResetEvent (NtUnmapViewOfSection a)"
  "\<not> is_ResetEvent reader_lock" "\<not> is_ResetEvent reader_unlock"
  "\<not> is_ResetEvent NtCreateSection" "\<not> is_ResetEvent NtOpenSection"
  "\<not> is_ResetEvent (NtMapViewOfSection x)" "\<not> is_ResetEvent (new_cygthread x)"
  "is_ResetEvent (ResetEvent x)"
  by (simp_all add: is_ResetEvent_def)

lemma status_facts:
  "NT_SUCCESS STATUS_SUCCESS" "NT_SUCCESS STATUS_PENDING"
  "\<not> NT_SUCCESS STATUS_OBJECT_NAME_COLLISION" "\<not> NT_SUCCESS STATUS_PIPE_BROKEN"
  by (simp_all add: NT_SUCCESS_def status_defs)

lemma closed_not_success: "STATUS_PIPE_IS_CLOSED s \<Longrightarrow> \<not> NT_SUCCESS s"
  by (auto simp add: NT_SUCCESS_def STATUS_PIPE_IS_CLOSED_def status_defs)

lemma closed_not_thread_status:
  "STATUS_PIPE_IS_CLOSED s \<Longrightarrow> s \<noteq> STATUS_THREAD_SIGNALED \<and> s \<noteq> STATUS_THREAD_CANCELED"
  by (auto simp add: STATUS_PIPE_IS_CLOSED_def status_defs)

subsection \<open>What the steps of \<^verbatim>\<open>open\<close> change\<close>

lemma err_keeps [simp]:
  "shm (err w) = shm w" "errno (err w) = errno w" "resets (err w) = resets w"
  by (simp_all add: err_def)

lemma err_close_read_ready_keeps [simp]:
  "shm (err_close_read_ready w) = shm w" "errno (err_close_read_ready w) = errno w"
  "resets (err_close_read_ready w) = resets w"
  by (simp_all add: err_close_read_ready_def)

lemma err_close_write_ready_keeps [simp]:
  "shm (err_close_write_ready w) = shm w" "errno (err_close_write_ready w) = errno w"
  "resets (err_close_write_ready w) = resets w"
  by (simp_all add: err_close_write_ready_def)

lemma err_close_shmem_keeps [simp]:
  "shm (err_close_shmem w) = shm w" "errno (err_close_shmem w) = errno w"
  "resets (err_close_shmem w) = resets w"
  by (simp_all add: err_close_shmem_def)

lemma err_close_listening_evt_keeps [simp]:
  "shm (err_close_listening_evt w) = shm w" "errno (err_close_listening_evt w) = errno w"
  "resets (err_close_listening_evt w) = resets w"
  by (simp_all add: err_close_listening_evt_def)

lemma err_close_cancel_evt_keeps [simp]:
  "shm (err_close_cancel_evt w) = shm w" "errno (err_close_cancel_evt w) = errno w"
  "resets (err_close_cancel_evt w) = resets w"
  by (simp_all add: err_close_cancel_evt_def)

lemma cancel_reader_thread_keeps [simp]:
  "shm (cancel_reader_thread w) = shm w" "errno (cancel_reader_thread w) = errno w"
  "resets (cancel_reader_thread w) = resets w" "obj (cancel_reader_thread w) = obj w"
  by (simp_all add: cancel_reader_thread_def Let_def)

lemma arm_keeps [simp]:
  "shm (snd (arm r x w)) = shm w" "errno (snd (arm r x w)) = errno w"
  "resets (snd (arm r x w)) = resets w" "obj (snd (arm r x w)) = obj w" "fst (arm r x w) = r"
  by (simp_all add: arm_def)

lemma create_event_keeps [simp]:
  "shm (snd (create_event pf e w)) = shm w"
  "resets (snd (create_event pf e w)) = resets w" "obj (snd (create_event pf e w)) = obj w"
  by (simp_all add: create_event_def Let_def)

lemma create_event_granted:
  "event_granted e \<Longrightarrow> fst (create_event pf e w) = ce_handle e"
  "event_granted e \<Longrightarrow> errno (snd (create_event pf e w)) = errno w"
  by (simp_all add: create_event_def Let_def event_granted_def)

lemma create_shmem_keeps [simp]:
  "shm (snd (create_shmem pf e w)) = shm w"
  "resets (snd (create_shmem pf e w)) = resets w"
  "me (obj (snd (create_shmem pf e w))) = me (obj w)"
  by (simp_all add: create_shmem_def Let_def)

lemma create_shmem_granted:
  "shmem_granted e \<Longrightarrow> fst (create_shmem pf e w) = 0"
  "shmem_granted e \<Longrightarrow> errno (snd (create_shmem pf e w)) = errno w"
  by (auto simp add: create_shmem_def Let_def shmem_granted_def status_facts)

lemma open_pipe_keeps [simp]:
  "shm (snd (open_pipe e ph w)) = shm w" "obj (snd (open_pipe e ph w)) = obj w"
  by (simp_all add: open_pipe_def Let_def)

lemma wait_keeps [simp]:
  "shm (snd (wait pf r le hnd w)) = shm w" "obj (snd (wait pf r le hnd w)) = obj w"
  by (simp_all add: wait_def Let_def)

subsection \<open>The read engine\<close>

lemma hit_eof_eq:
  "hit_eof frt w =
     (if nconnected (obj w) = 0 then
        (nconnected (frt (obj w)) = 0,
         w\<lparr>obj := frt (obj w),
           calls := calls w @ [fifo_client_lock, fifo_client_unlock, Sleep 1,
                               fifo_client_lock, fifo_client_unlock]\<rparr>)
      else (False, w\<lparr>calls := calls w @ [fifo_client_lock, fifo_client_unlock]\<rparr>))"
  by (simp add: hit_eof_def hit_eof_repeat.simps do_call_def Sleep_1_def Let_def)

lemma raw_read_loop_eof:
  assumes "nconnected (obj w) = 0" and "nconnected (rd_frt_eof e (obj w)) = 0"
  shows "raw_read_loop pf (e # es) n w =
     Some (Returned 0, w\<lparr>obj := rd_frt_eof e (obj w),
           calls := calls w @ [fifo_client_lock, fifo_client_unlock, Sleep 1,
                               fifo_client_lock, fifo_client_unlock]\<rparr>)"
  using assms by (simp add: hit_eof_eq)

text \<open>
  C2. \<^verbatim>\<open>hit_eof\<close> samples \<^verbatim>\<open>nconnected\<close> between \<^verbatim>\<open>fifo_client_lock\<close> and
  \<^verbatim>\<open>fifo_client_unlock\<close>. When the sample is zero it sleeps once and samples once more,
  and answers whether the second sample is zero; when the first sample is not zero it
  answers false at once. A pass of the loop of \<^verbatim>\<open>raw_read\<close> in which both samples are
  zero returns with \<^verbatim>\<open>len = 0\<close> and leaves errno alone, and so does a read of non-zero
  length by the owner whose first pass it is.
\<close>

theorem read_eof_after_one_recheck:
  "hit_eof frt w =
     (if nconnected (obj w) = 0 then
        (nconnected (frt (obj w)) = 0,
         w\<lparr>obj := frt (obj w),
           calls := calls w @ [fifo_client_lock, fifo_client_unlock, Sleep 1,
                               fifo_client_lock, fifo_client_unlock]\<rparr>)
      else (False, w\<lparr>calls := calls w @ [fifo_client_lock, fifo_client_unlock]\<rparr>))
   \<and> (nconnected (obj w) = 0 \<and> nconnected (rd_frt_eof e (obj w)) = 0 \<longrightarrow>
        raw_read_loop pf (e # es) n w =
          Some (Returned 0, w\<lparr>obj := rd_frt_eof e (obj w),
                calls := calls w @ [fifo_client_lock, fifo_client_unlock, Sleep 1,
                                    fifo_client_lock, fifo_client_unlock]\<rparr>))
   \<and> (n \<noteq> 0 \<and> get_owner w = me (obj w) \<and> nconnected (obj w) = 0
        \<and> nconnected (rd_frt_eof e (obj w)) = 0 \<longrightarrow>
        raw_read pf (e # es) n w =
          Some (Returned 0, w\<lparr>obj := rd_frt_eof e (obj w),
                calls := calls w @ [owner_lock, owner_unlock,
                                    fifo_client_lock, fifo_client_unlock, Sleep 1,
                                    fifo_client_lock, fifo_client_unlock]\<rparr>))"
proof (intro conjI impI)
  show "hit_eof frt w =
     (if nconnected (obj w) = 0 then
        (nconnected (frt (obj w)) = 0,
         w\<lparr>obj := frt (obj w),
           calls := calls w @ [fifo_client_lock, fifo_client_unlock, Sleep 1,
                               fifo_client_lock, fifo_client_unlock]\<rparr>)
      else (False, w\<lparr>calls := calls w @ [fifo_client_lock, fifo_client_unlock]\<rparr>))"
    by (rule hit_eof_eq)
next
  assume b: "nconnected (obj w) = 0 \<and> nconnected (rd_frt_eof e (obj w)) = 0"
  show "raw_read_loop pf (e # es) n w =
          Some (Returned 0, w\<lparr>obj := rd_frt_eof e (obj w),
                calls := calls w @ [fifo_client_lock, fifo_client_unlock, Sleep 1,
                                    fifo_client_lock, fifo_client_unlock]\<rparr>)"
    by (rule raw_read_loop_eof) (use b in simp_all)
next
  assume a: "n \<noteq> 0 \<and> get_owner w = me (obj w) \<and> nconnected (obj w) = 0
        \<and> nconnected (rd_frt_eof e (obj w)) = 0"
  let ?v = "do_call owner_unlock (do_call owner_lock w)"
  from a have "raw_read pf (e # es) n w = raw_read_loop pf (e # es) n ?v"
    by (simp add: raw_read_def Let_def get_owner_def)
  also from a have "\<dots> = Some (Returned 0, ?v\<lparr>obj := rd_frt_eof e (obj ?v),
           calls := calls ?v @ [fifo_client_lock, fifo_client_unlock, Sleep 1,
                               fifo_client_lock, fifo_client_unlock]\<rparr>)"
    by (intro raw_read_loop_eof) simp_all
  finally show "raw_read pf (e # es) n w =
          Some (Returned 0, w\<lparr>obj := rd_frt_eof e (obj w),
                calls := calls w @ [owner_lock, owner_unlock,
                                    fifo_client_lock, fifo_client_unlock, Sleep 1,
                                    fifo_client_lock, fifo_client_unlock]\<rparr>)"
    by (simp add: do_call_def)
qed

theorem read_eof_after_one_recheck_witness:
  "raw_read ex_platform [ex_read_env] 16 ex_reader_no_writer =
     Some (Returned 0,
           ex_reader_no_writer\<lparr>calls := [owner_lock, owner_unlock,
                                    fifo_client_lock, fifo_client_unlock, Sleep 1,
                                    fifo_client_lock, fifo_client_unlock]\<rparr>)"
proof -
  have 1: "(16 :: size_t) \<noteq> 0" by simp
  have 2: "get_owner ex_reader_no_writer = me (obj ex_reader_no_writer)"
    by (simp add: get_owner_def ex_defs)
  have 3: "nconnected (obj ex_reader_no_writer) = 0" by (simp add: ex_defs)
  have 4: "nconnected (rd_frt_eof ex_read_env (obj ex_reader_no_writer)) = 0"
    by (simp add: ex_defs)
  have 5: "rd_frt_eof ex_read_env (obj ex_reader_no_writer) = obj ex_reader_no_writer"
    by (simp add: ex_read_env_def)
  have 6: "calls ex_reader_no_writer = []" by (simp add: ex_defs)
  from read_eof_after_one_recheck [of "\<lambda>x. x" ex_reader_no_writer ex_read_env ex_platform "[]" 16]
    1 2 3 4
  have "raw_read ex_platform [ex_read_env] 16 ex_reader_no_writer =
          Some (Returned 0, ex_reader_no_writer\<lparr>obj := rd_frt_eof ex_read_env (obj ex_reader_no_writer),
                calls := calls ex_reader_no_writer @ [owner_lock, owner_unlock,
                                    fifo_client_lock, fifo_client_unlock, Sleep 1,
                                    fifo_client_lock, fifo_client_unlock]\<rparr>)"
    by blast
  then show ?thesis by (simp add: 5 6)
qed

text \<open>
  C3, as stated, fails: a read of length zero by an endpoint that is not the owner
  returns with \<^verbatim>\<open>len = 0\<close> and sets no errno.
\<close>

theorem read_not_owner_counterexample:
  "get_owner ex_not_owner \<noteq> me (obj ex_not_owner)
   \<and> raw_read ex_platform [ex_read_env] 0 ex_not_owner = Some (Returned 0, ex_not_owner)
   \<and> errno ex_not_owner \<noteq> ENOTSUP"
  by (simp add: raw_read_def get_owner_def ex_defs)

text \<open>
  C3, amended. A read of non-zero length by an endpoint whose identity is not the owner
  recorded in the shared memory fails: \<^verbatim>\<open>len\<close> becomes \<^verbatim>\<open>(size_t) -1\<close>, errno is
  \<^verbatim>\<open>ENOTSUP\<close>, and the only calls made are \<^verbatim>\<open>owner_lock\<close> and \<^verbatim>\<open>owner_unlock\<close>: no
  handler is read and the object is unchanged.
\<close>

theorem read_not_owner_ENOTSUP:
  assumes "n \<noteq> 0" and "get_owner w \<noteq> me (obj w)"
  shows "raw_read pf es n w =
     Some (Returned (- 1), w\<lparr>errno := ENOTSUP, calls := calls w @ [owner_lock, owner_unlock]\<rparr>)"
  using assms by (simp add: raw_read_def do_call_def get_owner_def set_errno_def Let_def)

theorem read_not_owner_ENOTSUP_witness:
  "raw_read ex_platform [ex_read_env] 16 ex_not_owner =
     Some (Returned (- 1), ex_not_owner\<lparr>errno := ENOTSUP, calls := [owner_lock, owner_unlock]\<rparr>)"
proof -
  have 1: "(16 :: size_t) \<noteq> 0" by simp
  have 2: "get_owner ex_not_owner \<noteq> me (obj ex_not_owner)"
    by (simp add: get_owner_def ex_defs)
  have 3: "calls ex_not_owner = []" by (simp add: ex_defs)
  from read_not_owner_ENOTSUP [OF 1 2, of ex_platform "[ex_read_env]"] 3
  show ?thesis by simp
qed

text \<open>
  C10. A read of length zero returns at once with \<^verbatim>\<open>len = 0\<close>, whoever the owner is:
  the state is unchanged, so errno is not set, no lock is taken, the handler table is not
  touched and \<^verbatim>\<open>hit_eof\<close> is not called.
\<close>

theorem read_zero_length_returns_at_once:
  "raw_read pf es 0 w = Some (Returned 0, w)"
  by (simp add: raw_read_def)

theorem read_zero_length_returns_at_once_witness:
  "raw_read ex_platform [] 0 ex_not_owner = Some (Returned 0, ex_not_owner)
   \<and> get_owner ex_not_owner \<noteq> me (obj ex_not_owner)"
  using read_zero_length_returns_at_once [of ex_platform "[]" ex_not_owner]
  by (simp add: get_owner_def ex_defs)

subsection \<open>The write engine\<close>

lemma finished_Some:
  "finished evt e = Some s \<Longrightarrow> write_waitret evt e = WAIT_OBJECT_0 \<and> write_status evt e = s"
  by (auto simp: finished_def write_waitret_def write_status_def split: if_splits)

lemma finished_None:
  "expected evt e \<Longrightarrow> finished evt e = None \<Longrightarrow> write_waitret evt e = WAIT_SIGNALED"
  by (auto simp: finished_def write_waitret_def expected_def split: if_splits)

lemma finished_not_cancelled:
  "expected evt e \<Longrightarrow> finished evt e = Some s \<Longrightarrow> s \<noteq> STATUS_THREAD_CANCELED"
  by (auto simp: finished_def expected_def split: if_splits)

lemma wait_facts:
  "WAIT_OBJECT_0 \<noteq> WAIT_CANCELED" "WAIT_OBJECT_0 \<noteq> WAIT_SIGNALED" "WAIT_SIGNALED \<noteq> WAIT_CANCELED"
  "STATUS_THREAD_SIGNALED \<noteq> STATUS_THREAD_CANCELED"
  by (simp_all add: wait_defs status_defs)

lemma counted_unat:
  "counted evt e = unat (if counted evt e = 0 then 0 else wr_io_Information e)"
  by (simp add: counted_def transferred_def split: option.splits)

lemma counted_le: "counted evt e \<le> unat (wr_io_Information e)"
  by (simp add: counted_def transferred_def split: option.splits)

lemma counted_pos:
  "0 < counted evt e \<Longrightarrow>
     \<not> wr_isclosed e \<and> (\<exists>s. finished evt e = Some s \<and> NT_SUCCESS s)
     \<and> wr_io_Information e \<noteq> 0 \<and> counted evt e = unat (wr_io_Information e)"
  by (auto simp: counted_def transferred_def split: option.splits if_splits)

lemma raw_write_chunk_nbytes:
  assumes "expected evt e"
  shows "l_nbytes (fst (raw_write_chunk pf evt chunk e l w)) =
     l_nbytes l + (if counted evt e = 0 then 0 else wr_io_Information e)"
proof (cases "finished evt e")
  case None
  from finished_None [OF assms None] None show ?thesis
    by (simp add: raw_write_chunk_def Let_def split_beta counted_def transferred_def wait_facts)
next
  case (Some s)
  from finished_Some [OF Some] Some show ?thesis
    by (simp add: raw_write_chunk_def Let_def split_beta counted_def transferred_def wait_facts
          unat_eq_0)
qed

lemma raw_write_chunk_len:
  assumes "expected evt e"
  shows "l_len (fst (raw_write_chunk pf evt chunk e l w)) =
     (if counted evt e = 0 then 0 else l_len l)"
proof (cases "finished evt e")
  case None
  from finished_None [OF assms None] None show ?thesis
    by (simp add: raw_write_chunk_def Let_def split_beta counted_def transferred_def wait_facts)
next
  case (Some s)
  from finished_Some [OF Some] Some show ?thesis
    by (simp add: raw_write_chunk_def Let_def split_beta counted_def transferred_def wait_facts
          unat_eq_0)
qed

lemma raw_write_chunk_ret:
  "l_ret (fst (raw_write_chunk pf evt chunk e l w)) =
     (if l_nbytes (fst (raw_write_chunk pf evt chunk e l w)) = 0 then l_ret l
      else l_nbytes (fst (raw_write_chunk pf evt chunk e l w)))"
  by (simp add: raw_write_chunk_def Let_def split_beta word_greater_zero_iff)

lemma raw_write_chunk_status:
  assumes "expected evt e"
  shows "l_status (fst (raw_write_chunk pf evt chunk e l w)) \<noteq> STATUS_THREAD_CANCELED"
proof (cases "finished evt e")
  case None
  from finished_None [OF assms None] show ?thesis
    by (simp add: raw_write_chunk_def Let_def split_beta wait_facts)
next
  case (Some s)
  from finished_Some [OF Some] finished_not_cancelled [OF assms Some] show ?thesis
    by (simp add: raw_write_chunk_def Let_def split_beta wait_facts)
qed

lemma raw_write_loop_done:
  "\<not> l_nbytes l < l_len l \<Longrightarrow> raw_write_loop pf evt chunk es l w = Some (l, w)"
  by (cases es) simp_all

text \<open>
  The loop invariant: while no count wraps around, \<^verbatim>\<open>nbytes\<close> is the accumulated count
  and \<^verbatim>\<open>ret\<close> is \<^verbatim>\<open>nbytes\<close> once a byte was counted and -1 before.
\<close>

lemma raw_write_loop_acc:
  assumes "\<forall>e\<in>set es. expected evt e"
    and "unat (l_nbytes l) + sum_list (map (\<lambda>e. unat (wr_io_Information e)) es) < 2 ^ 64"
    and "accumulated evt (unat (l_len l)) (unat (l_nbytes l)) es = Some T"
    and "l_status l \<noteq> STATUS_THREAD_CANCELED"
    and "l_ret l = (if l_nbytes l = 0 then - 1 else l_nbytes l)"
  shows "\<exists>l' w'. raw_write_loop pf evt chunk es l w = Some (l', w')
       \<and> unat (l_nbytes l') = T
       \<and> l_ret l' = (if l_nbytes l' = 0 then - 1 else l_nbytes l')
       \<and> l_status l' \<noteq> STATUS_THREAD_CANCELED"
  using assms
proof (induction es arbitrary: l w)
  case Nil
  then have "\<not> l_nbytes l < l_len l" "T = unat (l_nbytes l)"
    by (simp_all add: word_less_nat_alt split: if_splits)
  with Nil show ?case by simp
next
  case (Cons e es)
  show ?case
  proof (cases "l_nbytes l < l_len l")
    case False
    then have "\<not> unat (l_nbytes l) < unat (l_len l)" by (simp add: word_less_nat_alt)
    with False Cons.prems show ?thesis by simp
  next
    case True
    then have lt: "unat (l_nbytes l) < unat (l_len l)" by (simp add: word_less_nat_alt)
    from Cons.prems(1) have ex: "expected evt e" by simp
    obtain l1 w1 where c: "raw_write_chunk pf evt chunk e l w = (l1, w1)" by fastforce
    let ?x = "if counted evt e = 0 then 0 else wr_io_Information e"
    have k: "counted evt e = unat ?x" by (rule counted_unat)
    have nb: "l_nbytes l1 = l_nbytes l + ?x"
      using raw_write_chunk_nbytes [OF ex, of pf chunk l w] c by simp
    have ln: "l_len l1 = (if counted evt e = 0 then 0 else l_len l)"
      using raw_write_chunk_len [OF ex, of pf chunk l w] c by simp
    have rt: "l_ret l1 = (if l_nbytes l1 = 0 then l_ret l else l_nbytes l1)"
      using raw_write_chunk_ret [of pf evt chunk e l w] c by simp
    have st: "l_status l1 \<noteq> STATUS_THREAD_CANCELED"
      using raw_write_chunk_status [OF ex, of pf chunk l w] c by simp
    have "unat (l_nbytes l) + unat ?x < 2 ^ 64"
      using Cons.prems(2) counted_le [of evt e] k by simp
    then have un: "unat (l_nbytes l1) = unat (l_nbytes l) + counted evt e"
      using nb k unat_add_lem [of "l_nbytes l" ?x] by simp
    show ?thesis
    proof (cases "counted evt e = 0")
      case True
      with ln have "l_len l1 = 0" by simp
      then have "raw_write_loop pf evt chunk es l1 w1 = Some (l1, w1)"
        by (simp add: raw_write_loop_done)
      moreover have "l_nbytes l1 = l_nbytes l" using un True by (simp add: word_unat_eq_iff)
      moreover have "T = unat (l_nbytes l)" using Cons.prems(3) lt True by simp
      ultimately show ?thesis
        using \<open>l_nbytes l < l_len l\<close> c rt st Cons.prems(5) by simp
    next
      case False
      with ln have len1: "l_len l1 = l_len l" by simp
      from False un have nz: "l_nbytes l1 \<noteq> 0" by (auto simp: unat_eq_0 [symmetric])
      have p2: "unat (l_nbytes l1) + sum_list (map (\<lambda>e. unat (wr_io_Information e)) es) < 2 ^ 64"
        using Cons.prems(2) counted_le [of evt e] un by simp
      have p3: "accumulated evt (unat (l_len l1)) (unat (l_nbytes l1)) es = Some T"
        using Cons.prems(3) len1 un False lt by simp
      have p5: "l_ret l1 = (if l_nbytes l1 = 0 then - 1 else l_nbytes l1)"
        using rt nz by simp
      from Cons.IH [of l1 w1, OF _ p2 p3 st p5] Cons.prems(1)
      obtain l' w' where r: "raw_write_loop pf evt chunk es l1 w1 = Some (l', w')"
        "unat (l_nbytes l') = T"
        "l_ret l' = (if l_nbytes l' = 0 then - 1 else l_nbytes l')"
        "l_status l' \<noteq> STATUS_THREAD_CANCELED"
        by auto
      show ?thesis
        using \<open>l_nbytes l < l_len l\<close> c r by simp
    qed
  qed
qed

lemma accumulated_le:
  "accumulated evt n acc es = Some T \<Longrightarrow>
     T \<le> acc + sum_list (map (\<lambda>e. unat (wr_io_Information e)) es)"
proof (induction es arbitrary: acc)
  case Nil
  then show ?case by (simp split: if_splits)
next
  case (Cons e es)
  show ?case
  proof (cases "acc < n \<and> counted evt e \<noteq> 0")
    case True
    with Cons.prems have "accumulated evt n (acc + counted evt e) es = Some T" by simp
    from Cons.IH [OF this] counted_le [of evt e] show ?thesis by simp
  next
    case False
    with Cons.prems have "T = acc" by (auto split: if_splits)
    then show ?thesis by simp
  qed
qed

lemma accumulated_enough:
  "n - acc \<le> length es \<Longrightarrow> accumulated evt n acc es \<noteq> None"
proof (induction es arbitrary: acc)
  case Nil
  then show ?case by simp
next
  case (Cons e es)
  show ?case
  proof (cases "acc < n \<and> counted evt e \<noteq> 0")
    case True
    with Cons.prems have "n - (acc + counted evt e) \<le> length es" by auto
    from Cons.IH [OF this] True show ?thesis by simp
  next
    case False
    then show ?thesis by auto
  qed
qed

lemma sint_of_small: "unat (x :: 64 word) < 2 ^ 63 \<Longrightarrow> sint x = int (unat x)"
proof -
  assume a: "unat x < 2 ^ 63"
  then have "int (unat x) < int (2 ^ 63)" by (simp only: of_nat_less_iff)
  then have u: "uint x < 2 ^ 63" by simp
  have "- (2 ^ 63) \<le> (0::int)" by simp
  also have "0 \<le> uint x" by simp
  finally have l: "- (2 ^ 63) \<le> uint x" .
  have L: "LENGTH(64) - Suc 0 = 63" by simp
  have "sint x = signed_take_bit (LENGTH(64) - Suc 0) (uint x)" by (rule sint_uint)
  also have "\<dots> = signed_take_bit 63 (uint x)" by (simp only: L)
  also have "\<dots> = uint x" using l u by (rule signed_take_bit_int_eq_self)
  also have "\<dots> = int (unat x)" by (rule uint_nat)
  finally show ?thesis .
qed

lemma raw_write_accumulated:
  assumes "n \<noteq> 0"
    and "is_nonblocking w \<or> ws_CreateEvent se \<noteq> NULL"
    and "\<forall>e\<in>set es. expected (write_evt se w) e"
    and "sum_list (map (\<lambda>e. unat (wr_io_Information e)) es) < 2 ^ 63"
    and "total_counted se es n w = Some T"
  shows "\<exists>r w'. raw_write pf se es p n w = Some (Returned r, w')
           \<and> (0 < T \<longrightarrow> sint r = int T) \<and> (sint r = - 1 \<longleftrightarrow> T = 0)"
proof -
  let ?evt = "write_evt se w"
  let ?n1 = "write_len n w"
  let ?chunk = "(if n \<le> max_atomic_write (obj w) then ucast n
                 else ucast (max_atomic_write (obj w))) :: ULONG"
  let ?w1 = "if is_nonblocking w then w else do_call CreateEvent w"
  let ?l0 = "\<lparr>l_ptr = p, l_len = ?n1, l_nbytes = 0, l_ret = - 1, l_status = STATUS_SUCCESS\<rparr>"
  have acc: "accumulated ?evt (unat ?n1) 0 es = Some T"
    using assms(2,5) by (auto simp: total_counted_def)
  have "\<exists>l' w'. raw_write_loop pf ?evt ?chunk es ?l0 ?w1 = Some (l', w')
       \<and> unat (l_nbytes l') = T
       \<and> l_ret l' = (if l_nbytes l' = 0 then - 1 else l_nbytes l')
       \<and> l_status l' \<noteq> STATUS_THREAD_CANCELED"
    using assms(3,4) acc
    by (intro raw_write_loop_acc) (simp_all add: status_defs)
  then obtain l' w' where L: "raw_write_loop pf ?evt ?chunk es ?l0 ?w1 = Some (l', w')"
    "unat (l_nbytes l') = T"
    "l_ret l' = (if l_nbytes l' = 0 then - 1 else l_nbytes l')"
    "l_status l' \<noteq> STATUS_THREAD_CANCELED"
    by auto
  have small: "T < 2 ^ 63"
    using accumulated_le [OF acc] assms(4) by simp
  have R: "\<exists>w''. raw_write pf se es p n w = Some (Returned (l_ret l'), w'')"
    using assms(1,2) L(1,4)
    by (auto simp: raw_write_def Let_def write_evt_def write_len_def not_le split: if_splits)
  have S: "(0 < T \<longrightarrow> sint (l_ret l') = int T) \<and> (sint (l_ret l') = - 1 \<longleftrightarrow> T = 0)"
  proof (cases "l_nbytes l' = 0")
    case True
    with L(2,3) show ?thesis by simp
  next
    case False
    then have "0 < unat (l_nbytes l')" by (simp add: unat_gt_0)
    with L(2) have pos: "0 < T" by simp
    from small L(2) have "sint (l_nbytes l') = int T" by (simp add: sint_of_small)
    with False pos L(3) show ?thesis by simp
  qed
  from R obtain w'' where W: "raw_write pf se es p n w = Some (Returned (l_ret l'), w'')"
    by blast
  show ?thesis
    by (rule exI [of _ "l_ret l'"], rule exI [of _ w'']) (use W S in simp)
qed

lemma raw_write_no_event:
  assumes "n \<noteq> 0" and "\<not> is_nonblocking w" and "ws_CreateEvent se = NULL"
  shows "raw_write pf se es p n w =
     Some (Returned (- 1),
           w\<lparr>errno := geterrno_from_win_error pf (ws_GetLastError se),
             calls := calls w @ [CreateEvent]\<rparr>)"
  using assms by (simp add: raw_write_def Let_def split_beta do_call_def set_errno_def)

lemma total_counted_enough:
  "unat n \<le> length es \<Longrightarrow> total_counted se es n w \<noteq> None"
proof -
  assume a: "unat n \<le> length es"
  have "unat (write_len n w) \<le> unat n" by (auto simp: write_len_def word_less_nat_alt)
  with a have "unat (write_len n w) - 0 \<le> length es" by simp
  from accumulated_enough [OF this] show ?thesis by (simp add: total_counted_def)
qed

text \<open>
  C4, amended. The bytes of a chunk count unless the descriptor is found closed when the
  chunk is over. A write of positive length, whose answers are those a write is written
  for and whose byte counts do not wrap around (the counts the platform reports add up
  to less than \<open>2 ^ 63\<close>), returns as soon as the answers cover its chunks, which they
  do when there are as many answers as bytes to write. When the chunks counted at least
  one byte altogether it returns their accumulated count, whatever happened to the last
  chunk; it returns -1 exactly when no byte was counted.
\<close>

theorem write_returns_counted_bytes:
  assumes "n \<noteq> 0"
    and "\<forall>e\<in>set es. expected (write_evt se w) e"
    and "sum_list (map (\<lambda>e. unat (wr_io_Information e)) es) < 2 ^ 63"
  shows "(\<forall>T. total_counted se es n w = Some T \<longrightarrow>
           (\<exists>r w'. raw_write pf se es p n w = Some (Returned r, w')
              \<and> (0 < T \<longrightarrow> sint r = int T) \<and> (sint r = - 1 \<longleftrightarrow> T = 0)))
       \<and> (unat n \<le> length es \<longrightarrow> total_counted se es n w \<noteq> None)"
proof (intro conjI allI impI)
  fix T assume T: "total_counted se es n w = Some T"
  show "\<exists>r w'. raw_write pf se es p n w = Some (Returned r, w')
              \<and> (0 < T \<longrightarrow> sint r = int T) \<and> (sint r = - 1 \<longleftrightarrow> T = 0)"
  proof (cases "is_nonblocking w \<or> ws_CreateEvent se \<noteq> NULL")
    case True
    from raw_write_accumulated [OF assms(1) True assms(2,3) T] show ?thesis .
  next
    case False
    then have f: "\<not> is_nonblocking w" "ws_CreateEvent se = NULL" by simp_all
    with T have "T = 0" by (simp add: total_counted_def)
    with raw_write_no_event [OF assms(1) f, of pf es p] show ?thesis by simp
  qed
next
  assume "unat n \<le> length es"
  then show "total_counted se es n w \<noteq> None" by (rule total_counted_enough)
qed

theorem write_returns_counted_bytes_witness:
  "\<exists>r w'. raw_write ex_platform ex_write_start [ex_written 0x10000, ex_broken] 0x1000 0x18000
             ex_writer = Some (Returned r, w')
          \<and> sint r = 65536"
proof -
  have e: "write_evt ex_write_start ex_writer = 0x68"
    by (simp add: write_evt_def is_nonblocking_def ex_writer_def ex_write_start_def
          new_fhandler_fifo_def)
  have 1: "(0x18000 :: size_t) \<noteq> 0" by simp
  have 2: "\<forall>e\<in>set [ex_written 0x10000, ex_broken]. expected (write_evt ex_write_start ex_writer) e"
    by (simp add: e expected_def ex_written_def ex_broken_def status_defs)
  have 3: "sum_list (map (\<lambda>e. unat (wr_io_Information e)) [ex_written 0x10000, ex_broken]) < 2 ^ 63"
    by (simp add: ex_written_def ex_broken_def)
  have 4: "total_counted ex_write_start [ex_written 0x10000, ex_broken] 0x18000 ex_writer
             = Some 65536"
    by (simp add: total_counted_def e write_len_def is_nonblocking_def counted_def
          transferred_def finished_def NT_SUCCESS_def status_defs ex_writer_def
          ex_write_start_def ex_written_def ex_broken_def new_fhandler_fifo_def NULL_def)
  from write_returns_counted_bytes [OF 1 2 3, of ex_platform "0x1000"] 4
  obtain r w' where
    "raw_write ex_platform ex_write_start [ex_written 0x10000, ex_broken] 0x1000 0x18000 ex_writer
       = Some (Returned r, w')"
    "(0::nat) < 65536 \<longrightarrow> sint r = int 65536"
    by blast
  then show ?thesis by auto
qed

text \<open>
  C4, as stated, fails. The platform completes the only chunk of a write of two bytes
  with both bytes, and the descriptor is found closed when the chunk is over (the file's
  comment: a signal handler might have closed the fd). The two bytes are not counted:
  the write returns -1 with errno \<^verbatim>\<open>EBADF\<close>, although two bytes were transferred.
\<close>

theorem write_returns_counted_bytes_counterexample:
  "transferred 0x68 (ex_written_closed 2) = 2
   \<and> raw_write ex_platform ex_write_start [ex_written_closed 2] 0x1000 2 ex_writer
       = Some (Returned (- 1),
               ex_writer\<lparr>errno := EBADF,
                         calls := [CreateEvent, NtWriteFile 0x30 0x68 0x1000 2, NtClose 0x68]\<rparr>)"
  by (simp add: raw_write_def raw_write_chunk_def write_waitret_def write_status_def Let_def
        is_nonblocking_def get_handle_def do_call_def set_errno_def NT_SUCCESS_def NULL_def
        status_defs wait_defs ex_writer_def ex_write_start_def ex_written_def
        ex_written_closed_def new_fhandler_fifo_def transferred_def finished_def)

lemma is_NtWriteFile_simps [simp]:
  "is_NtWriteFile (NtWriteFile a b c d)" "\<not> is_NtWriteFile (cygwait x t)"
  "\<not> is_NtWriteFile CreateEvent" "\<not> is_NtWriteFile (raise sg)" "\<not> is_NtWriteFile (NtClose x)"
  by (simp_all add: is_NtWriteFile_def)

lemma raw_write_chunk_counted:
  assumes "0 < counted evt e"
  shows "l_nbytes (fst (raw_write_chunk pf evt chunk e l w)) = l_nbytes l + wr_io_Information e"
    and "l_len (fst (raw_write_chunk pf evt chunk e l w)) = l_len l"
    and "l_ptr (fst (raw_write_chunk pf evt chunk e l w)) = l_ptr l + ucast chunk"
    and "calls (snd (raw_write_chunk pf evt chunk e l w)) =
           calls w @ NtWriteFile (get_handle w) evt (l_ptr l) (write_len1 chunk l)
             # (if evt \<noteq> NULL \<and> wr_NtWriteFile e = STATUS_PENDING
                then [cygwait evt INFINITE] else [])"
    and "obj (snd (raw_write_chunk pf evt chunk e l w)) = obj w"
proof -
  from counted_pos [OF assms] obtain s where s: "\<not> wr_isclosed e" "finished evt e = Some s"
    "NT_SUCCESS s" "wr_io_Information e \<noteq> 0" by blast
  note f = finished_Some [OF s(2)]
  from f s show "l_nbytes (fst (raw_write_chunk pf evt chunk e l w)) = l_nbytes l + wr_io_Information e"
    by (simp add: raw_write_chunk_def Let_def split_beta wait_facts)
  from f s show "l_len (fst (raw_write_chunk pf evt chunk e l w)) = l_len l"
    by (simp add: raw_write_chunk_def Let_def split_beta wait_facts)
  from f s show "l_ptr (fst (raw_write_chunk pf evt chunk e l w)) = l_ptr l + ucast chunk"
    by (simp add: raw_write_chunk_def Let_def split_beta wait_facts)
  from f s show "calls (snd (raw_write_chunk pf evt chunk e l w)) =
           calls w @ NtWriteFile (get_handle w) evt (l_ptr l) (write_len1 chunk l)
             # (if evt \<noteq> NULL \<and> wr_NtWriteFile e = STATUS_PENDING
                then [cygwait evt INFINITE] else [])"
    by (simp add: raw_write_chunk_def Let_def split_beta wait_facts write_len1_def)
  from f s show "obj (snd (raw_write_chunk pf evt chunk e l w)) = obj w"
    by (simp add: raw_write_chunk_def Let_def split_beta wait_facts)
qed


lemma reports_closed_status:
  assumes "reports_closed evt e"
  shows "write_waitret evt e = WAIT_OBJECT_0" and "STATUS_PIPE_IS_CLOSED (write_status evt e)"
proof -
  from assms obtain s where s: "finished evt e = Some s"
    "s = STATUS_PIPE_CLOSING \<or> s = STATUS_PIPE_BROKEN \<or> s = STATUS_PIPE_EMPTY"
    by (auto simp: reports_closed_def)
  from finished_Some [OF s(1)] s(2)
  show "write_waitret evt e = WAIT_OBJECT_0" and "STATUS_PIPE_IS_CLOSED (write_status evt e)"
    by (simp_all add: STATUS_PIPE_IS_CLOSED_def)
qed

lemma raw_write_loop_closed:
  assumes "l_nbytes l < l_len l" and "reports_closed evt e" and "\<not> wr_isclosed e"
  shows "\<exists>l' w'. raw_write_loop pf evt chunk (e # es) l w = Some (l', w')
          \<and> l_ret l' = (if 0 < l_nbytes l then l_nbytes l else l_ret l)
          \<and> l_status l' \<noteq> STATUS_THREAD_SIGNALED \<and> l_status l' \<noteq> STATUS_THREAD_CANCELED
          \<and> errno w' = EPIPE
          \<and> calls w' = calls w @ NtWriteFile (get_handle w) evt (l_ptr l) (write_len1 chunk l)
                 # (if evt \<noteq> NULL \<and> wr_NtWriteFile e = STATUS_PENDING
                    then [cygwait evt INFINITE] else [])
                 @ [raise SIGPIPE]"
proof -
  note r = reports_closed_status [OF assms(2)]
  note n = closed_not_success [OF r(2)] closed_not_thread_status [OF r(2)]
  have c: "raw_write_chunk pf evt chunk e l w =
     (l\<lparr>l_status := write_status evt e, l_len := 0,
        l_ret := (if 0 < l_nbytes l then l_nbytes l else l_ret l)\<rparr>,
      w\<lparr>errno := EPIPE,
        calls := calls w @ [NtWriteFile (get_handle w) evt (l_ptr l) (write_len1 chunk l)]
                 @ (if evt \<noteq> NULL \<and> wr_NtWriteFile e = STATUS_PENDING
                    then [cygwait evt INFINITE] else [])
                 @ [raise SIGPIPE]\<rparr>)"
    using r n assms(3)
    by (simp add: raw_write_chunk_def Let_def write_len1_def do_call_def set_errno_def wait_facts)
  show ?thesis
    using assms(1) n by (simp add: c raw_write_loop_done)
qed

lemma raw_write_loop_prefix:
  assumes "\<forall>e\<in>set pre. 0 < counted evt e"
    and "unat (l_nbytes l) + sum_list (map (counted evt) pre) < unat (l_len l)"
  shows "\<exists>l' w' cs. raw_write_loop pf evt chunk (pre @ es) l w = raw_write_loop pf evt chunk es l' w'
       \<and> unat (l_nbytes l') = unat (l_nbytes l) + sum_list (map (counted evt) pre)
       \<and> l_len l' = l_len l
       \<and> l_ret l' = (if pre = [] then l_ret l else l_nbytes l')
       \<and> calls w' = calls w @ cs \<and> length (filter is_NtWriteFile cs) = length pre
       \<and> raise SIGPIPE \<notin> set cs \<and> obj w' = obj w"
  using assms
proof (induction pre arbitrary: l w)
  case Nil
  show ?case by (rule exI [of _ l], rule exI [of _ w], rule exI [of _ "[]"]) simp
next
  case (Cons e pre)
  from Cons.prems(1) have pos: "0 < counted evt e" by simp
  from Cons.prems(2) have lt: "l_nbytes l < l_len l" by (simp add: word_less_nat_alt)
  obtain l1 w1 where c: "raw_write_chunk pf evt chunk e l w = (l1, w1)" by fastforce
  note k = raw_write_chunk_counted [OF pos, of pf chunk l w]
  from counted_pos [OF pos] have cu: "counted evt e = unat (wr_io_Information e)" by blast
  have "unat (l_len l) < 2 ^ 64" using unsigned_less [of "l_len l", where 'a = nat] by simp
  then have "unat (l_nbytes l) + unat (wr_io_Information e) < 2 ^ 64"
    using Cons.prems(2) cu by simp
  then have un: "unat (l_nbytes l1) = unat (l_nbytes l) + counted evt e"
    using k(1) c cu unat_add_lem [of "l_nbytes l" "wr_io_Information e"] by simp
  with pos have nz: "l_nbytes l1 \<noteq> 0" by (auto simp: unat_eq_0 [symmetric])
  have len1: "l_len l1 = l_len l" using k(2) c by simp
  have rt: "l_ret l1 = l_nbytes l1"
    using raw_write_chunk_ret [of pf evt chunk e l w] c nz by simp
  have p1: "\<forall>e\<in>set pre. 0 < counted evt e" using Cons.prems(1) by simp
  have p2: "unat (l_nbytes l1) + sum_list (map (counted evt) pre) < unat (l_len l1)"
    using Cons.prems(2) un len1 by simp
  from Cons.IH [OF p1 p2, of w1]
  obtain l' w' cs where r:
    "raw_write_loop pf evt chunk (pre @ es) l1 w1 = raw_write_loop pf evt chunk es l' w'"
    "unat (l_nbytes l') = unat (l_nbytes l1) + sum_list (map (counted evt) pre)"
    "l_len l' = l_len l1" "l_ret l' = (if pre = [] then l_ret l1 else l_nbytes l')"
    "calls w' = calls w1 @ cs" "length (filter is_NtWriteFile cs) = length pre"
    "raise SIGPIPE \<notin> set cs" "obj w' = obj w1"
    by blast
  let ?c1 = "NtWriteFile (get_handle w) evt (l_ptr l) (write_len1 chunk l)
             # (if evt \<noteq> NULL \<and> wr_NtWriteFile e = STATUS_PENDING
                then [cygwait evt INFINITE] else [])"
  have a: "raw_write_loop pf evt chunk ((e # pre) @ es) l w = raw_write_loop pf evt chunk es l' w'"
    using lt c r(1) by simp
  have b: "unat (l_nbytes l') = unat (l_nbytes l) + sum_list (map (counted evt) (e # pre))"
    using r(2) un by simp
  have d: "l_ret l' = (if e # pre = [] then l_ret l else l_nbytes l')"
  proof (cases "pre = []")
    case True
    with r(2) have "l_nbytes l' = l_nbytes l1" by (simp add: word_unat_eq_iff)
    with True r(4) rt show ?thesis by simp
  next
    case False
    with r(4) show ?thesis by simp
  qed
  have f: "calls w' = calls w @ (?c1 @ cs)" using r(5) k(4) c by simp
  have g: "length (filter is_NtWriteFile (?c1 @ cs)) = length (e # pre)" using r(6) by simp
  have h: "raise SIGPIPE \<notin> set (?c1 @ cs)" using r(7) by simp
  have i: "obj w' = obj w" using r(8) k(5) c by simp
  have j: "l_len l' = l_len l" using r(3) len1 by simp
  show ?case
    by (rule exI [of _ l'], rule exI [of _ w'], rule exI [of _ "?c1 @ cs"])
       (use a b d f g h i j in blast)
qed

lemma raw_write_after_loop:
  assumes "n \<noteq> 0" and "is_nonblocking w \<or> ws_CreateEvent se \<noteq> NULL"
    and "raw_write_loop pf (write_evt se w)
           (if n \<le> max_atomic_write (obj w) then ucast n else ucast (max_atomic_write (obj w)))
           es \<lparr>l_ptr = p, l_len = write_len n w, l_nbytes = 0, l_ret = - 1,
               l_status = STATUS_SUCCESS\<rparr>
           (if is_nonblocking w then w else do_call CreateEvent w) = Some (l', w')"
    and "l_status l' \<noteq> STATUS_THREAD_SIGNALED" and "l_status l' \<noteq> STATUS_THREAD_CANCELED"
  shows "raw_write pf se es p n w =
     Some (Returned (l_ret l'),
           if write_evt se w \<noteq> NULL then do_call (NtClose (write_evt se w)) w' else w')"
  using assms
  by (auto simp: raw_write_def Let_def write_evt_def write_len_def not_le split: if_splits)

lemma sum_counted_pos:
  "\<forall>e\<in>set pre. 0 < counted evt e \<Longrightarrow> pre \<noteq> [] \<Longrightarrow> 0 < sum_list (map (counted evt) pre)"
  by (cases pre) auto

text \<open>
  C5, amended. In a write whose chunks so far all counted bytes, a chunk for which the
  platform reports the pipe closing, broken or empty, and after which the descriptor is
  not found closed, ends the write: errno is \<^verbatim>\<open>EPIPE\<close>, \<^verbatim>\<open>SIGPIPE\<close> is raised once,
  after the \<^verbatim>\<open>NtWriteFile\<close> of that chunk, and nothing follows but the closing of the
  write's event, whatever answers remain. The write returns the bytes counted before,
  and -1 when there are none.
\<close>

theorem write_to_closed_pipe_EPIPE_SIGPIPE:
  assumes "is_nonblocking w \<or> ws_CreateEvent se \<noteq> NULL"
    and "\<forall>e'\<in>set pre. 0 < counted (write_evt se w) e'"
    and "sum_list (map (counted (write_evt se w)) pre) < unat (write_len n w)"
    and "reports_closed (write_evt se w) e" and "\<not> wr_isclosed e"
  shows "\<exists>w' cs. raw_write pf se (pre @ e # rest) p n w =
             Some (Returned (if pre = [] then - 1
                             else of_nat (sum_list (map (counted (write_evt se w)) pre))), w')
           \<and> errno w' = EPIPE
           \<and> calls w' = calls w @ cs @ raise SIGPIPE
                # (if write_evt se w = NULL then [] else [NtClose (write_evt se w)])
           \<and> length (filter is_NtWriteFile cs) = Suc (length pre)
           \<and> raise SIGPIPE \<notin> set cs"
proof -
  let ?evt = "write_evt se w"
  let ?chunk = "(if n \<le> max_atomic_write (obj w) then ucast n
                 else ucast (max_atomic_write (obj w))) :: ULONG"
  let ?w1 = "if is_nonblocking w then w else do_call CreateEvent w"
  let ?l0 = "\<lparr>l_ptr = p, l_len = write_len n w, l_nbytes = 0, l_ret = - 1,
              l_status = STATUS_SUCCESS\<rparr>"
  let ?S = "sum_list (map (counted ?evt) pre)"
  from assms(3) have "write_len n w \<noteq> 0" by (auto simp: unat_gt_0 [symmetric])
  then have n0: "n \<noteq> 0" by (auto simp: write_len_def split: if_splits)
  have "unat (l_nbytes ?l0) + ?S < unat (l_len ?l0)" using assms(3) by simp
  from raw_write_loop_prefix [OF assms(2) this, of pf ?chunk "e # rest" ?w1]
  obtain l1 w1 cs where r:
    "raw_write_loop pf ?evt ?chunk (pre @ e # rest) ?l0 ?w1
       = raw_write_loop pf ?evt ?chunk (e # rest) l1 w1"
    "unat (l_nbytes l1) = ?S" "l_len l1 = write_len n w"
    "l_ret l1 = (if pre = [] then - 1 else l_nbytes l1)"
    "calls w1 = calls ?w1 @ cs" "length (filter is_NtWriteFile cs) = length pre"
    "raise SIGPIPE \<notin> set cs" "obj w1 = obj w"
    by auto
  from r(2,3) assms(3) have lt: "l_nbytes l1 < l_len l1" by (simp add: word_less_nat_alt)
  let ?c1 = "NtWriteFile (get_handle w1) ?evt (l_ptr l1) (write_len1 ?chunk l1)
               # (if ?evt \<noteq> NULL \<and> wr_NtWriteFile e = STATUS_PENDING
                  then [cygwait ?evt INFINITE] else [])"
  from raw_write_loop_closed [OF lt assms(4,5), of pf ?chunk rest w1]
  obtain l2 w2 where c:
    "raw_write_loop pf ?evt ?chunk (e # rest) l1 w1 = Some (l2, w2)"
    "l_ret l2 = (if 0 < l_nbytes l1 then l_nbytes l1 else l_ret l1)"
    "l_status l2 \<noteq> STATUS_THREAD_SIGNALED" "l_status l2 \<noteq> STATUS_THREAD_CANCELED"
    "errno w2 = EPIPE" "calls w2 = calls w1 @ ?c1 @ [raise SIGPIPE]"
    by auto
  let ?w3 = "if ?evt \<noteq> NULL then do_call (NtClose ?evt) w2 else w2"
  from r(1) c(1) have L: "raw_write_loop pf ?evt ?chunk (pre @ e # rest) ?l0 ?w1 = Some (l2, w2)"
    by simp
  have R: "raw_write pf se (pre @ e # rest) p n w = Some (Returned (l_ret l2), ?w3)"
    by (rule raw_write_after_loop [OF n0 assms(1) L c(3,4)])
  have ret: "l_ret l2 = (if pre = [] then - 1 else of_nat ?S)"
  proof (cases "pre = []")
    case True
    with r(2) have "l_nbytes l1 = 0" by (simp add: unat_eq_0)
    with True c(2) r(4) show ?thesis by simp
  next
    case False
    from sum_counted_pos [OF assms(2) False] r(2) have "0 < unat (l_nbytes l1)" by simp
    then have "0 < l_nbytes l1" by (simp add: unat_gt_0 word_greater_zero_iff)
    moreover have "l_nbytes l1 = of_nat ?S" using r(2) [symmetric] by simp
    ultimately show ?thesis using False c(2) by simp
  qed
  let ?cs = "(if is_nonblocking w then [] else [CreateEvent]) @ cs @ ?c1"
  have 1: "errno ?w3 = EPIPE" using c(5) by simp
  have 2: "calls ?w3 = calls w @ ?cs @ raise SIGPIPE # (if ?evt = NULL then [] else [NtClose ?evt])"
    using c(6) r(5) by simp
  have 3: "length (filter is_NtWriteFile ?cs) = Suc (length pre)" using r(6) by simp
  have 4: "raise SIGPIPE \<notin> set ?cs" using r(7) by simp
  show ?thesis
    by (rule exI [of _ ?w3], rule exI [of _ ?cs]) (use R ret 1 2 3 4 in simp)
qed

theorem write_to_closed_pipe_EPIPE_SIGPIPE_witness:
  "\<exists>w'. raw_write ex_platform ex_write_start [ex_written 0x10000, ex_broken] 0x1000 0x18000
           ex_writer = Some (Returned 0x10000, w')
        \<and> errno w' = EPIPE \<and> raise SIGPIPE \<in> set (calls w')"
proof -
  have e: "write_evt ex_write_start ex_writer = 0x68"
    by (simp add: write_evt_def is_nonblocking_def ex_writer_def ex_write_start_def
          new_fhandler_fifo_def)
  have c: "counted 0x68 (ex_written 0x10000) = 65536"
    by (simp add: counted_def transferred_def finished_def NT_SUCCESS_def status_defs
          ex_written_def)
  have 1: "is_nonblocking ex_writer \<or> ws_CreateEvent ex_write_start \<noteq> NULL"
    by (simp add: ex_write_start_def NULL_def)
  have 2: "\<forall>e'\<in>set [ex_written 0x10000]. 0 < counted (write_evt ex_write_start ex_writer) e'"
    by (simp add: e c)
  have wl: "unat (write_len 0x18000 ex_writer) = 98304"
    by (simp add: write_len_def is_nonblocking_def ex_writer_def new_fhandler_fifo_def)
  have 3: "sum_list (map (counted (write_evt ex_write_start ex_writer)) [ex_written 0x10000])
             < unat (write_len 0x18000 ex_writer)"
    by (simp add: e c wl)
  have 4: "reports_closed (write_evt ex_write_start ex_writer) ex_broken"
    by (simp add: e reports_closed_def finished_def ex_broken_def status_defs)
  have 5: "\<not> wr_isclosed ex_broken" by (simp add: ex_broken_def)
  from write_to_closed_pipe_EPIPE_SIGPIPE [OF 1 2 3 4 5, of ex_platform "[]" "0x1000"]
  show ?thesis by (auto simp: e c)
qed

text \<open>
  C5, as stated, fails. The platform reports the pipe broken and the descriptor is found
  closed when the chunk is over. The closed descriptor is tested before the status: errno
  is \<^verbatim>\<open>EBADF\<close> and no signal is raised.
\<close>

theorem write_to_closed_pipe_counterexample:
  "reports_closed 0x68 ex_broken_closed
   \<and> raw_write ex_platform ex_write_start [ex_broken_closed] 0x1000 2 ex_writer
       = Some (Returned (- 1),
               ex_writer\<lparr>errno := EBADF,
                         calls := [CreateEvent, NtWriteFile 0x30 0x68 0x1000 2, NtClose 0x68]\<rparr>)"
  by (simp add: raw_write_def raw_write_chunk_def write_waitret_def write_status_def Let_def
        is_nonblocking_def get_handle_def do_call_def set_errno_def NT_SUCCESS_def NULL_def
        status_defs wait_defs ex_writer_def ex_write_start_def ex_broken_def
        ex_broken_closed_def new_fhandler_fifo_def reports_closed_def finished_def)






subsection \<open>The client handler table and the fifo\_reader thread\<close>

lemma record_connection_simps [simp]:
  "shm (record_connection i w) = shm w" "me (obj (record_connection i w)) = me (obj w)"
  by (simp_all add: record_connection_def Let_def)

lemma delete_client_handler_simps [simp]:
  "shm (delete_client_handler i w) = shm w" "me (obj (delete_client_handler i w)) = me (obj w)"
  by (simp_all add: delete_client_handler_def Let_def)

lemma delete_invalid_keeps [simp]:
  "shm (delete_invalid i w) = shm w \<and> me (obj (delete_invalid i w)) = me (obj w)"
proof (induction i w rule: delete_invalid.induct)
  case (1 i w)
  show ?case
    using "1.IH" by (subst (1 2) delete_invalid.simps) simp
qed

lemma delete_invalid_none:
  "\<forall>fc\<in>set (fc_handler (obj w)). state fc \<noteq> fc_invalid \<Longrightarrow> delete_invalid i w = w"
proof (induction i w rule: delete_invalid.induct)
  case (1 i w)
  show ?case
    using "1.IH"(2) "1.prems"
    by (subst delete_invalid.simps) (simp add: nhandlers_def)
qed

lemma create_pipe_instance_keeps [simp]:
  "shm (snd (create_pipe_instance pf e first w)) = shm w"
  "obj (snd (create_pipe_instance pf e first w)) = obj w"
  by (simp_all add: create_pipe_instance_def Let_def)

lemma add_client_handler_keeps [simp]:
  "shm (snd (add_client_handler pf e w)) = shm w"
  "me (obj (snd (add_client_handler pf e w))) = me (obj w)"
  by (simp_all add: add_client_handler_def Let_def split_beta)

lemma add_client_handler_full:
  "nhandlers w = MAX_CLIENTS pf \<Longrightarrow> add_client_handler pf e w = (- 1, set_errno EMFILE w)"
  by (simp add: add_client_handler_def)

lemma pipe_state_keeps [simp]:
  "shm (snd (pipe_state pf e hnd w)) = shm w" "obj (snd (pipe_state pf e hnd w)) = obj w"
  by (simp_all add: pipe_state_def Let_def)

lemma frt_world_if [simp]: "frt_world (if c then Canceled v else Continue v) = v"
  by simp

lemma after_listen_keeps [simp]:
  "shm (frt_world (after_listen pf conn_evt e i status w)) = shm w"
  "me (obj (frt_world (after_listen pf conn_evt e i status w))) = me (obj w)"
  by (simp_all add: after_listen_def Let_def split_beta)

lemma thread_func_pass_me [simp]:
  "me (obj (frt_world (thread_func_pass pf conn_evt e w))) = me (obj w)"
  by (simp add: thread_func_pass_def Let_def split_beta)

lemma thread_func_pass_owner:
  "get_owner (frt_world (thread_func_pass pf conn_evt e w)) =
     (if fr_id_bool (get_owner w) then get_owner w else me (obj w))"
  by (simp add: thread_func_pass_def Let_def split_beta get_owner_def)

lemma thread_func_pass_full:
  assumes "fr_id_bool (get_owner w)" and "get_owner w = me (obj w)"
    and "nhandlers w = MAX_CLIENTS pf"
    and "\<forall>fc\<in>set (fc_handler (obj w)). state fc \<noteq> fc_invalid"
  shows "thread_func_pass pf conn_evt e w =
     Canceled (w\<lparr>errno := EMFILE,
                 calls := calls w @ [owner_lock, owner_unlock,
                                     fifo_client_lock, fifo_client_unlock]\<rparr>)"
proof -
  let ?v = "do_call fifo_client_lock (do_call owner_unlock (do_call owner_lock w))"
  from assms(4) have "\<forall>fc\<in>set (fc_handler (obj ?v)). state fc \<noteq> fc_invalid" by simp
  then have d: "delete_invalid 0 ?v = ?v" by (rule delete_invalid_none)
  from assms(3) have "nhandlers ?v = MAX_CLIENTS pf" by (simp add: nhandlers_def)
  then have a: "add_client_handler pf (le_create_pipe_instance e) ?v = (- 1, set_errno EMFILE ?v)"
    by (rule add_client_handler_full)
  from assms(1,2) show ?thesis
    by (simp add: thread_func_pass_def Let_def get_owner_def d a)
qed

text \<open>
  C6. With \<^verbatim>\<open>MAX_CLIENTS\<close> entries in the table, \<^verbatim>\<open>add_client_handler\<close> returns -1 with
  errno \<^verbatim>\<open>EMFILE\<close> and changes nothing else: no pipe instance is created and the table
  keeps its entries. In the thread of the owner, whose table is full of entries that are
  not invalid, the pass that wants a new handler ends the loop whatever the platform
  would answer later, and \<^verbatim>\<open>thread_func\<close> returns 0.
\<close>

theorem full_table_EMFILE_ends_listener:
  assumes "nhandlers w = MAX_CLIENTS pf"
  shows "add_client_handler pf pe w = (- 1, w\<lparr>errno := EMFILE\<rparr>)
     \<and> (fr_id_bool (get_owner w) \<and> get_owner w = me (obj w)
         \<and> (\<forall>fc\<in>set (fc_handler (obj w)). state fc \<noteq> fc_invalid) \<longrightarrow>
         thread_func_loop pf conn_evt (e # es) w =
           Some (w\<lparr>errno := EMFILE,
                   calls := calls w @ [owner_lock, owner_unlock,
                                       fifo_client_lock, fifo_client_unlock]\<rparr>)
         \<and> (event_granted ce \<longrightarrow>
              thread_func pf ce (e # es) w =
                Some (0, w\<lparr>errno := EMFILE,
                          calls := calls w @ [NtCreateEvent, owner_lock, owner_unlock,
                                              fifo_client_lock, fifo_client_unlock,
                                              NtClose (ce_handle ce), auto_release]\<rparr>)))"
proof (intro conjI impI)
  from assms show "add_client_handler pf pe w = (- 1, w\<lparr>errno := EMFILE\<rparr>)"
    by (simp add: add_client_handler_full set_errno_def)
next
  assume a: "fr_id_bool (get_owner w) \<and> get_owner w = me (obj w)
         \<and> (\<forall>fc\<in>set (fc_handler (obj w)). state fc \<noteq> fc_invalid)"
  then have a1: "fr_id_bool (get_owner w)" and a2: "get_owner w = me (obj w)"
    and a3: "\<forall>fc\<in>set (fc_handler (obj w)). state fc \<noteq> fc_invalid"
    by blast+
  have "thread_func_pass pf conn_evt e w =
     Canceled (w\<lparr>errno := EMFILE,
                 calls := calls w @ [owner_lock, owner_unlock,
                                     fifo_client_lock, fifo_client_unlock]\<rparr>)"
    by (rule thread_func_pass_full [OF a1 a2 assms a3])
  then show "thread_func_loop pf conn_evt (e # es) w =
           Some (w\<lparr>errno := EMFILE,
                   calls := calls w @ [owner_lock, owner_unlock,
                                       fifo_client_lock, fifo_client_unlock]\<rparr>)"
    by simp
next
  assume a: "fr_id_bool (get_owner w) \<and> get_owner w = me (obj w)
         \<and> (\<forall>fc\<in>set (fc_handler (obj w)). state fc \<noteq> fc_invalid)"
  assume g: "event_granted ce"
  let ?v = "do_call NtCreateEvent w"
  from g have c: "create_event pf ce w = (ce_handle ce, ?v)" and nn: "ce_handle ce \<noteq> NULL"
    by (simp_all add: create_event_def Let_def event_granted_def)
  from a have b1: "fr_id_bool (get_owner w)" and b2: "get_owner w = me (obj w)"
    and b3: "\<forall>fc\<in>set (fc_handler (obj w)). state fc \<noteq> fc_invalid"
    by blast+
  from b1 have a1: "fr_id_bool (get_owner ?v)" by (simp add: get_owner_def)
  from b2 have a2: "get_owner ?v = me (obj ?v)" by (simp add: get_owner_def)
  from b3 have a3: "\<forall>fc\<in>set (fc_handler (obj ?v)). state fc \<noteq> fc_invalid" by simp
  from assms have a4: "nhandlers ?v = MAX_CLIENTS pf" by (simp add: nhandlers_def)
  have "thread_func_pass pf (ce_handle ce) e ?v =
     Canceled (?v\<lparr>errno := EMFILE,
                 calls := calls ?v @ [owner_lock, owner_unlock,
                                     fifo_client_lock, fifo_client_unlock]\<rparr>)"
    by (rule thread_func_pass_full [OF a1 a2 a4 a3])
  with c nn show "thread_func pf ce (e # es) w =
                Some (0, w\<lparr>errno := EMFILE,
                          calls := calls w @ [NtCreateEvent, owner_lock, owner_unlock,
                                              fifo_client_lock, fifo_client_unlock,
                                              NtClose (ce_handle ce), auto_release]\<rparr>)"
    by (simp add: thread_func_def do_call_def)
qed

theorem full_table_EMFILE_ends_listener_witness:
  "add_client_handler ex_platform ex_pipe_env ex_reader = (- 1, ex_reader\<lparr>errno := EMFILE\<rparr>)
   \<and> thread_func ex_platform \<lparr>ce_status = STATUS_SUCCESS, ce_handle = 0x6C\<rparr>
        [ex_listen_env] ex_reader =
       Some (0, ex_reader\<lparr>errno := EMFILE,
                  calls := [NtCreateEvent, owner_lock, owner_unlock,
                            fifo_client_lock, fifo_client_unlock, NtClose 0x6C, auto_release]\<rparr>)"
proof -
  have 1: "nhandlers ex_reader = MAX_CLIENTS ex_platform"
    by (simp add: nhandlers_def ex_defs)
  have 2: "fr_id_bool (get_owner ex_reader) \<and> get_owner ex_reader = me (obj ex_reader)
         \<and> (\<forall>fc\<in>set (fc_handler (obj ex_reader)). state fc \<noteq> fc_invalid)"
    by (simp add: fr_id_bool_def get_owner_def ex_defs)
  have 3: "event_granted \<lparr>ce_status = STATUS_SUCCESS, ce_handle = 0x6C\<rparr>"
    by (simp add: event_granted_def status_facts NULL_def)
  have 4: "calls ex_reader = []" by (simp add: ex_defs)
  from full_table_EMFILE_ends_listener [OF 1, of ex_pipe_env 0 ex_listen_env "[]"
      "\<lparr>ce_status = STATUS_SUCCESS, ce_handle = 0x6C\<rparr>"] 2 3
  have "add_client_handler ex_platform ex_pipe_env ex_reader = (- 1, ex_reader\<lparr>errno := EMFILE\<rparr>)"
    and "thread_func ex_platform \<lparr>ce_status = STATUS_SUCCESS, ce_handle = 0x6C\<rparr>
        [ex_listen_env] ex_reader =
       Some (0, ex_reader\<lparr>errno := EMFILE,
                  calls := calls ex_reader @ [NtCreateEvent, owner_lock, owner_unlock,
                            fifo_client_lock, fifo_client_unlock,
                            NtClose (ce_handle \<lparr>ce_status = STATUS_SUCCESS, ce_handle = 0x6C\<rparr>),
                            auto_release]\<rparr>)"
    by blast+
  then show ?thesis by (simp add: 4)
qed

text \<open>
  C7, as stated, fails: \<^verbatim>\<open>ex_reader\<close> is a blocking endpoint (\<^verbatim>\<open>O_NONBLOCK\<close> is not
  set), and recording a connection on its second handler still asks for the
  non-blocking completion mode.
\<close>

theorem record_connection_mode_counterexample:
  "\<not> is_nonblocking ex_reader
   \<and> last (calls (record_connection 1 ex_reader))
       = NtSetInformationFile 0x44 FILE_PIPE_COMPLETE_OPERATION
   \<and> last (calls (record_connection 1 ex_reader))
       \<noteq> NtSetInformationFile 0x44
            (if is_nonblocking ex_reader then FILE_PIPE_COMPLETE_OPERATION
             else FILE_PIPE_QUEUE_OPERATION)"
  by (simp add: record_connection_def set_pipe_non_blocking_def set_fc_state_def
        add_nconnected_def get_fc_handle_def is_nonblocking_def do_call_def Let_def ex_defs)

text \<open>
  C7, amended. \<^verbatim>\<open>record_connection\<close> on an entry of the table sets \<^verbatim>\<open>write_ready\<close>,
  marks the entry connected, adds one to \<^verbatim>\<open>nconnected\<close> and asks for the non-blocking
  completion mode on the entry's handle, whatever the endpoint's own \<^verbatim>\<open>O_NONBLOCK\<close>
  flag is. The instance was created in blocking mode: \<^verbatim>\<open>add_client_handler\<close>, when the
  table has room and the pipe directory is at hand, creates it with
  \<^verbatim>\<open>FILE_PIPE_QUEUE_OPERATION\<close>.
\<close>

theorem record_connection_sets_nonblocking:
  assumes "i < nhandlers w"
  shows "record_connection i w =
     w\<lparr>obj := (obj w)\<lparr>fc_handler :=
                        (fc_handler (obj w))[i := (fc_handler (obj w) ! i)\<lparr>state := fc_connected\<rparr>],
                      nconnected := nconnected (obj w) + 1\<rparr>,
       calls := calls w @ [SetEvent (write_ready (obj w)),
                           NtSetInformationFile (h (fc_handler (obj w) ! i))
                             FILE_PIPE_COMPLETE_OPERATION]\<rparr>
   \<and> (nhandlers w \<noteq> MAX_CLIENTS pf \<and> NT_SUCCESS (pe_npfs_handle pe) \<longrightarrow>
        calls (snd (add_client_handler pf pe w)) =
          calls w @ [NtCreateNamedPipeFile (nhandlers w = 0) (\<not> O_CLOEXEC (openflags (obj w)))
                       FILE_PIPE_QUEUE_OPERATION])"
  using assms
  by (simp add: record_connection_def set_pipe_non_blocking_def set_fc_state_def
        add_nconnected_def get_fc_handle_def do_call_def Let_def nhandlers_def
        add_client_handler_def create_pipe_instance_def set_errno_def)

theorem record_connection_sets_nonblocking_witness:
  "calls (record_connection 1 ex_reader) =
     [SetEvent 0x14, NtSetInformationFile 0x44 FILE_PIPE_COMPLETE_OPERATION]
   \<and> nconnected (obj (record_connection 1 ex_reader)) = 3"
proof -
  have 1: "1 < nhandlers ex_reader" by (simp add: nhandlers_def ex_defs)
  from record_connection_sets_nonblocking [OF 1, of ex_platform ex_pipe_env]
  show ?thesis by (simp add: ex_defs)
qed

subsection \<open>Opening a FIFO that has a reader\<close>

lemma set_owner_more [simp]:
  "nreaders (shm (set_owner x w)) = nreaders (shm w)" "errno (set_owner x w) = errno w"
  "calls (set_owner x w) = calls w"
  by (simp_all add: set_owner_def)

lemma is_ResetEvent_more [simp]:
  "\<not> is_ResetEvent owner_lock" "\<not> is_ResetEvent owner_unlock" "\<not> is_ResetEvent auto_release"
  by (simp_all add: is_ResetEvent_def)

lemma thread_func_pass_nreaders:
  "nreaders (shm (frt_world (thread_func_pass pf conn_evt e w))) = nreaders (shm w)"
  by (simp add: thread_func_pass_def Let_def split_beta)

lemma thread_func_loop_owner:
  "thread_func_loop pf conn_evt es w = Some w' \<Longrightarrow>
     get_owner w' = (if fr_id_bool (get_owner w) then get_owner w else me (obj w))"
proof (induction es arbitrary: w)
  case Nil
  then show ?case by simp
next
  case (Cons e es)
  show ?case
  proof (cases "thread_func_pass pf conn_evt e w")
    case (Continue v)
    with Cons.prems have "thread_func_loop pf conn_evt es v = Some w'" by simp
    from Cons.IH [OF this] thread_func_pass_owner [of pf conn_evt e w]
      thread_func_pass_me [of pf conn_evt e w] Continue
    show ?thesis by (simp add: fr_id_bool_def get_owner_def split: if_splits)
  next
    case (Canceled v)
    with Cons.prems have "v = w'" by simp
    with thread_func_pass_owner [of pf conn_evt e w] Canceled show ?thesis by simp
  qed
qed

lemma thread_func_loop_nreaders:
  "thread_func_loop pf conn_evt es w = Some w' \<Longrightarrow> nreaders (shm w') = nreaders (shm w)"
proof (induction es arbitrary: w)
  case Nil
  then show ?case by simp
next
  case (Cons e es)
  show ?case
  proof (cases "thread_func_pass pf conn_evt e w")
    case (Continue v)
    with Cons.prems have "thread_func_loop pf conn_evt es v = Some w'" by simp
    from Cons.IH [OF this] thread_func_pass_nreaders [of pf conn_evt e w] Continue
    show ?thesis by simp
  next
    case (Canceled v)
    with Cons.prems have "v = w'" by simp
    with thread_func_pass_nreaders [of pf conn_evt e w] Canceled show ?thesis by simp
  qed
qed

lemma thread_func_owner:
  assumes "thread_func pf ce es w = Some (r, w')"
  shows "get_owner w' = get_owner w \<or> (\<not> fr_id_bool (get_owner w) \<and> get_owner w' = me (obj w))"
    and "nreaders (shm w') = nreaders (shm w)"
    and "event_granted ce \<Longrightarrow> \<not> fr_id_bool (get_owner w) \<Longrightarrow> get_owner w' = me (obj w)"
proof -
  show "get_owner w' = get_owner w \<or> (\<not> fr_id_bool (get_owner w) \<and> get_owner w' = me (obj w))"
  proof (cases "fst (create_event pf ce w) = NULL")
    case True
    with assms show ?thesis by (auto simp: thread_func_def split_beta get_owner_def)
  next
    case False
    with assms obtain v where
      v: "thread_func_loop pf (fst (create_event pf ce w)) es (snd (create_event pf ce w)) = Some v"
      and w': "w' = do_call auto_release (do_call (NtClose (fst (create_event pf ce w))) v)"
      by (auto simp: thread_func_def split_beta split: option.splits)
    from thread_func_loop_owner [OF v] w' show ?thesis by (simp add: get_owner_def)
  qed
  show "nreaders (shm w') = nreaders (shm w)"
  proof (cases "fst (create_event pf ce w) = NULL")
    case True
    with assms show ?thesis by (auto simp: thread_func_def split_beta)
  next
    case False
    with assms obtain v where
      v: "thread_func_loop pf (fst (create_event pf ce w)) es (snd (create_event pf ce w)) = Some v"
      and w': "w' = do_call auto_release (do_call (NtClose (fst (create_event pf ce w))) v)"
      by (auto simp: thread_func_def split_beta split: option.splits)
    from thread_func_loop_nreaders [OF v] w' show ?thesis by simp
  qed
  show "get_owner w' = me (obj w)" if g: "event_granted ce" and n: "\<not> fr_id_bool (get_owner w)"
  proof -
    from g have nn: "fst (create_event pf ce w) \<noteq> NULL"
      by (simp add: create_event_granted event_granted_def)
    with assms obtain v where
      v: "thread_func_loop pf (fst (create_event pf ce w)) es (snd (create_event pf ce w)) = Some v"
      and w': "w' = do_call auto_release (do_call (NtClose (fst (create_event pf ce w))) v)"
      by (auto simp: thread_func_def split_beta split: option.splits)
    from thread_func_loop_owner [OF v] w' n show ?thesis by (simp add: get_owner_def)
  qed
qed

lemma thread_func_foreign:
  assumes "fr_id_bool (get_owner w)" and "get_owner w \<noteq> me (obj w)" and "es \<noteq> []"
  shows "\<exists>w'. thread_func pf ce es w = Some (0, w') \<and> shm w' = shm w \<and> obj w' = obj w
           \<and> resets w' = resets w"
proof -
  from assms(3) obtain e es' where es: "es = e # es'" by (cases es) auto
  let ?v = "snd (create_event pf ce w)"
  have p: "thread_func_pass pf c e ?v =
      Canceled (do_call (WaitForSingleObject (cancel_evt (obj ?v)) INFINITE)
                 (do_call owner_unlock (do_call owner_lock ?v)))" for c
    using assms(1,2) by (simp add: thread_func_pass_def Let_def get_owner_def)
  show ?thesis
    by (cases "fst (create_event pf ce w) = NULL")
       (simp_all add: thread_func_def split_beta es p)
qed

lemma resets_errno [simp]: "resets (w\<lparr>errno := x\<rparr>) = resets w"
  by (simp add: resets_def)

lemma fifo_reader_thread_Some:
  assumes "fifo_reader_thread pf ce es w = Some wj"
  shows "errno wj = errno w" and "nreaders (shm wj) = nreaders (shm w)"
    and "owner (shm wj) = owner (shm w)
         \<or> (\<not> fr_id_bool (owner (shm w)) \<and> owner (shm wj) = me (obj w))"
    and "event_granted ce \<Longrightarrow> \<not> fr_id_bool (owner (shm w)) \<Longrightarrow> owner (shm wj) = me (obj w)"
proof -
  from assms obtain r w' where t: "thread_func pf ce es w = Some (r, w')"
    and wj: "wj = w'\<lparr>errno := errno w\<rparr>"
    by (auto simp: fifo_reader_thread_def split: option.splits)
  from wj show "errno wj = errno w" by simp
  from thread_func_owner(2) [OF t] wj show "nreaders (shm wj) = nreaders (shm w)" by simp
  from thread_func_owner(1) [OF t] wj
  show "owner (shm wj) = owner (shm w)
         \<or> (\<not> fr_id_bool (owner (shm w)) \<and> owner (shm wj) = me (obj w))"
    by (simp add: get_owner_def)
  show "owner (shm wj) = me (obj w)" if "event_granted ce" and "\<not> fr_id_bool (owner (shm w))"
    using thread_func_owner(3) [OF t] wj that by (simp add: get_owner_def)
qed

lemma fifo_reader_thread_foreign:
  assumes "fr_id_bool (owner (shm w))" and "owner (shm w) \<noteq> me (obj w)" and "es \<noteq> []"
  shows "\<exists>wj. fifo_reader_thread pf ce es w = Some wj \<and> shm wj = shm w \<and> obj wj = obj w
           \<and> resets wj = resets w \<and> errno wj = errno w"
proof -
  from assms have "\<exists>w'. thread_func pf ce es w = Some (0, w') \<and> shm w' = shm w \<and> obj w' = obj w
           \<and> resets w' = resets w"
    by (intro thread_func_foreign) (simp_all add: get_owner_def)
  then obtain w' where "thread_func pf ce es w = Some (0, w')" "shm w' = shm w" "obj w' = obj w"
    "resets w' = resets w" by blast
  then show ?thesis by (simp add: fifo_reader_thread_def)
qed

lemma err_cancel_frt_Some:
  assumes "err_cancel_frt pf e v = Some v'"
  shows "errno v' = errno v" and "nreaders (shm v') = nreaders (shm v)"
    and "owner (shm v') = owner (shm v)
         \<or> (\<not> fr_id_bool (owner (shm v)) \<and> owner (shm v') = me (obj v))"
    and "event_granted (oe_conn_evt e) \<Longrightarrow> \<not> fr_id_bool (owner (shm v)) \<Longrightarrow>
           owner (shm v') = me (obj v)"
proof -
  from assms obtain wj where j: "fifo_reader_thread pf (oe_conn_evt e) (oe_frt e) v = Some wj"
    and v': "shm v' = shm wj" "errno v' = errno wj"
    by (auto simp: err_cancel_frt_def Let_def split: option.splits)
  note t = fifo_reader_thread_Some [OF j]
  from t(1) v' show "errno v' = errno v" by simp
  from t(2) v' show "nreaders (shm v') = nreaders (shm v)" by simp
  from t(3) v' show "owner (shm v') = owner (shm v)
         \<or> (\<not> fr_id_bool (owner (shm v)) \<and> owner (shm v') = me (obj v))" by simp
  show "owner (shm v') = me (obj v)"
    if "event_granted (oe_conn_evt e)" and "\<not> fr_id_bool (owner (shm v))"
    using t(4) v' that by simp
qed

lemma err_cancel_frt_foreign:
  assumes "fr_id_bool (owner (shm v))" and "owner (shm v) \<noteq> me (obj v)" and "oe_frt e \<noteq> []"
    and "nreaders (shm v) \<noteq> 0"
  shows "\<exists>v'. err_cancel_frt pf e v = Some v' \<and> shm v' = shm v \<and> resets v' = resets v
           \<and> errno v' = errno v"
proof -
  from fifo_reader_thread_foreign [OF assms(1,2,3), of pf "oe_conn_evt e"]
  obtain wj where "fifo_reader_thread pf (oe_conn_evt e) (oe_frt e) v = Some wj"
    "shm wj = shm v" "obj wj = obj v" "resets wj = resets v" "errno wj = errno v"
    by blast
  with assms(4) show ?thesis by (simp add: err_cancel_frt_def Let_def get_nreaders_def)
qed

lemma goto_err_cancel_frt_foreign:
  assumes "fr_id_bool (owner (shm v))" and "owner (shm v) \<noteq> me (obj v)" and "oe_frt e \<noteq> []"
    and "nreaders (shm v) \<noteq> 0"
  shows "goto_err_cancel_frt pf e v = Some (Returned 0, the (err_cancel_frt pf e v))"
    and "shm (the (err_cancel_frt pf e v)) = shm v"
    and "resets (the (err_cancel_frt pf e v)) = resets v"
    and "errno (the (err_cancel_frt pf e v)) = errno v"
  using err_cancel_frt_foreign [OF assms, of pf] by (auto simp: goto_err_cancel_frt_def)

lemma goto_err_cancel_frt_Some:
  assumes "goto_err_cancel_frt pf e v = Some (out, v')"
  shows "out = Returned 0" and "err_cancel_frt pf e v = Some v'"
  using assms by (auto simp: goto_err_cancel_frt_def split: option.splits)

lemma open_reader_second:
  assumes "0 < get_nreaders w" and "fr_id_bool (get_owner w)" and "get_owner w \<noteq> opener_id e"
    and "oe_frt e \<noteq> []"
  shows "\<exists>w'. open_reader pf e fl w = Some (Returned 0, w') \<and> shm w' = shm w
           \<and> resets w' = resets w"
  using assms
  by (simp add: open_reader_def Let_def split_beta goto_err_cancel_frt_foreign get_nreaders_def
        get_owner_def opener_id_def)

lemma open_reader_second_errno:
  assumes "0 < get_nreaders w" and "fr_id_bool (get_owner w)" and "get_owner w \<noteq> opener_id e"
    and "oe_frt e \<noteq> []"
    and "oe_arm e" and "shmem_granted (oe_create_shmem e)"
    and "event_granted (oe_listening_evt e)" and "event_granted (oe_cancel_evt e)"
    and "event_granted (oe_sync_thr e)"
  shows "\<exists>w'. open_reader pf e fl w = Some (Returned 0, w') \<and> errno w' = ENOTSUP"
  using assms
  by (simp add: open_reader_def Let_def split_beta goto_err_cancel_frt_foreign get_nreaders_def
        get_owner_def opener_id_def create_event_granted create_shmem_granted event_granted_def)

lemma open_reader_granted:
  assumes "0 < get_nreaders w"
    and "oe_arm e" and "shmem_granted (oe_create_shmem e)"
    and "event_granted (oe_listening_evt e)" and "event_granted (oe_cancel_evt e)"
    and "event_granted (oe_sync_thr e)"
  shows "\<exists>v. open_reader pf e fl w = goto_err_cancel_frt pf e v \<and> shm v = shm w
           \<and> errno v = ENOTSUP \<and> me (obj v) = opener_id e"
  using assms
  apply (simp add: open_reader_def Let_def split_beta get_nreaders_def
        opener_id_def create_event_granted create_shmem_granted event_granted_def)
  apply (rule exI, rule conjI, rule refl)
  apply (simp add: create_event_granted create_shmem_granted event_granted_def)
  done

lemma thread_func_pass_cancel_wins:
  assumes "cancel_wins e" and "fr_id_bool (get_owner w)"
  shows "\<exists>v. thread_func_pass pf c e w = Canceled v"
  using assms
  by (auto simp add: thread_func_pass_def after_listen_def Let_def split_beta cancel_wins_def
        status_defs wait_defs get_owner_def)

lemma thread_func_loop_ends:
  assumes "\<not> fr_id_bool (get_owner w)" and "fr_id_bool (me (obj w))" and "cancel_wins e2"
  shows "\<exists>w'. thread_func_loop pf c (e1 # e2 # es) w = Some w'"
proof -
  let ?v = "do_call owner_unlock (set_owner (me (obj w)) (do_call owner_lock w))"
  have 1: "thread_func_pass pf c e1 w = Continue ?v"
    using assms(1) by (simp add: thread_func_pass_def Let_def get_owner_def)
  have "fr_id_bool (get_owner ?v)" using assms(2) by (simp add: get_owner_def)
  from thread_func_pass_cancel_wins [OF assms(3) this, of pf c]
  obtain u where "thread_func_pass pf c e2 ?v = Canceled u" by blast
  with 1 show ?thesis by simp
qed

lemma err_cancel_frt_claims:
  assumes "\<not> fr_id_bool (owner (shm v))" and "fr_id_bool (me (obj v))"
    and "event_granted (oe_conn_evt e)" and "oe_frt e = e1 # e2 # es" and "cancel_wins e2"
  shows "\<exists>v'. err_cancel_frt pf e v = Some v'"
proof -
  let ?c = "create_event pf (oe_conn_evt e) v"
  from assms(3) have nn: "fst ?c \<noteq> NULL" by (simp add: create_event_granted event_granted_def)
  have "\<not> fr_id_bool (get_owner (snd ?c))" "fr_id_bool (me (obj (snd ?c)))"
    using assms(1,2) by (simp_all add: get_owner_def)
  from thread_func_loop_ends [OF this assms(5), of pf "fst ?c" e1 es]
  obtain u where "thread_func_loop pf (fst ?c) (e1 # e2 # es) (snd ?c) = Some u" by blast
  with nn assms(4) show ?thesis
    by (simp add: err_cancel_frt_def fifo_reader_thread_def thread_func_def split_beta Let_def)
qed

lemma fifo_open_second_granted:
  assumes "0 < get_nreaders w" and "\<not> O_PATH fl"
    and "accmode fl = O_RDONLY \<or> accmode fl = O_RDWR" and "reader_setup_granted e"
  shows "\<exists>v. fifo_open pf e fl w = goto_err_cancel_frt pf e v \<and> shm v = shm w
           \<and> errno v = ENOTSUP \<and> me (obj v) = opener_id e"
proof -
  have R: "\<And>v0 :: world. shm v0 = shm w \<Longrightarrow>
     \<exists>v. open_reader pf e fl v0 = goto_err_cancel_frt pf e v \<and> shm v = shm w
           \<and> errno v = ENOTSUP \<and> me (obj v) = opener_id e"
  proof -
    fix v0 :: world assume v: "shm v0 = shm w"
    with assms(1) have "0 < get_nreaders v0" by (simp add: get_nreaders_def)
    from open_reader_granted [OF this, of e pf fl] assms(4) v
    show "\<exists>v. open_reader pf e fl v0 = goto_err_cancel_frt pf e v \<and> shm v = shm w
           \<and> errno v = ENOTSUP \<and> me (obj v) = opener_id e"
      by (auto simp: reader_setup_granted_def)
  qed
  from assms(3) show ?thesis
  proof
    assume a: "accmode fl = O_RDONLY"
    show ?thesis
      using assms(2,4) a
      by (simp add: fifo_open_def Let_def reader_setup_granted_def R)
  next
    assume a: "accmode fl = O_RDWR"
    show ?thesis
      using assms(2,4) a
      by (simp add: fifo_open_def Let_def reader_setup_granted_def R)
  qed
qed

lemma fifo_open_second_foreign:
  assumes "0 < get_nreaders w" and "\<not> O_PATH fl"
    and "accmode fl = O_RDONLY \<or> accmode fl = O_RDWR"
    and "fr_id_bool (get_owner w)" and "get_owner w \<noteq> opener_id e" and "oe_frt e \<noteq> []"
  shows "\<exists>w'. fifo_open pf e fl w = Some (Returned 0, w') \<and> shm w' = shm w
           \<and> resets w' = resets w \<and> (reader_setup_granted e \<longrightarrow> errno w' = ENOTSUP)"
proof -
  have R: "\<And>v. shm v = shm w \<Longrightarrow> resets v = resets w \<Longrightarrow>
     \<exists>w'. open_reader pf e fl v = Some (Returned 0, w') \<and> shm w' = shm w
           \<and> resets w' = resets w
           \<and> (oe_arm e \<and> shmem_granted (oe_create_shmem e) \<and> event_granted (oe_listening_evt e)
                \<and> event_granted (oe_cancel_evt e) \<and> event_granted (oe_sync_thr e)
               \<longrightarrow> errno w' = ENOTSUP)"
  proof -
    fix v assume v: "shm v = shm w" "resets v = resets w"
    with assms(1,4,5) have p: "0 < get_nreaders v" "fr_id_bool (get_owner v)"
      "get_owner v \<noteq> opener_id e"
      by (simp_all add: get_nreaders_def get_owner_def)
    from open_reader_second [OF p assms(6), of pf fl]
      open_reader_second_errno [OF p assms(6), of pf fl] v
    show "\<exists>w'. open_reader pf e fl v = Some (Returned 0, w') \<and> shm w' = shm w
           \<and> resets w' = resets w
           \<and> (oe_arm e \<and> shmem_granted (oe_create_shmem e) \<and> event_granted (oe_listening_evt e)
                \<and> event_granted (oe_cancel_evt e) \<and> event_granted (oe_sync_thr e)
               \<longrightarrow> errno w' = ENOTSUP)"
      by auto
  qed
  from assms(3) show ?thesis
  proof
    assume a: "accmode fl = O_RDONLY"
    show ?thesis
      using assms(2) a
      by (simp add: fifo_open_def Let_def reader_setup_granted_def R)
  next
    assume a: "accmode fl = O_RDWR"
    show ?thesis
      using assms(2) a
      by (simp add: fifo_open_def Let_def reader_setup_granted_def R)
  qed
qed

lemma fifo_open_second_claims:
  assumes "0 < get_nreaders w" and "\<not> O_PATH fl"
    and "accmode fl = O_RDONLY \<or> accmode fl = O_RDWR" and "reader_setup_granted e"
    and "\<not> fr_id_bool (get_owner w)" and "fr_id_bool (opener_id e)"
    and "event_granted (oe_conn_evt e)" and "2 \<le> length (oe_frt e)"
    and "cancel_wins (oe_frt e ! 1)"
  shows "\<exists>w'. fifo_open pf e fl w = Some (Returned 0, w') \<and> errno w' = ENOTSUP
           \<and> get_nreaders w' = get_nreaders w \<and> get_owner w' = opener_id e"
proof -
  from fifo_open_second_granted [OF assms(1-4), of pf]
  obtain v where v: "fifo_open pf e fl w = goto_err_cancel_frt pf e v" "shm v = shm w"
    "errno v = ENOTSUP" "me (obj v) = opener_id e" by blast
  from assms(8) obtain e1 e2 es where es: "oe_frt e = e1 # e2 # es"
    by (cases "oe_frt e"; cases "tl (oe_frt e)") auto
  with assms(9) have cw: "cancel_wins e2" by simp
  from assms(5,6) v have o: "\<not> fr_id_bool (owner (shm v))" "fr_id_bool (me (obj v))"
    by (simp_all add: get_owner_def)
  from err_cancel_frt_claims [OF o assms(7) es cw, of pf]
  obtain v' where v': "err_cancel_frt pf e v = Some v'" by blast
  note t = err_cancel_frt_Some [OF v']
  have "fifo_open pf e fl w = Some (Returned 0, v')"
    using v(1) v' by (simp add: goto_err_cancel_frt_def)
  moreover have "errno v' = ENOTSUP" using t(1) v(3) by simp
  moreover have "get_nreaders v' = get_nreaders w" using t(2) v(2) by (simp add: get_nreaders_def)
  moreover have "get_owner v' = opener_id e" using t(4) [OF assms(7) o(1)] v(4)
    by (simp add: get_owner_def)
  ultimately show ?thesis by blast
qed

text \<open>
  C1. While a reader is counted in the shared memory, an \<^verbatim>\<open>open\<close> for reading
  (\<^verbatim>\<open>O_RDONLY\<close> or \<^verbatim>\<open>O_RDWR\<close>, not \<^verbatim>\<open>O_PATH\<close>) returns 0. By then it has started the
  fifo\_reader thread of the endpoint it opens, and it waits for the end of that thread
  before it returns.

  When the owner field names another endpoint (the first reader holds the FIFO), the
  thread only waits to be cancelled: the shared memory is as it was and no event is
  reset, so the first reader stays open and \<^verbatim>\<open>read_ready\<close> stays set; errno is
  \<^verbatim>\<open>ENOTSUP\<close> once the platform has granted the set-up that precedes the check.

  C1 does not hold when the owner field is still empty, as it is while the first reader
  is counted and its own thread has not made its first pass. The thread of the endpoint
  whose \<^verbatim>\<open>open\<close> fails then writes that endpoint's identity into the field on its first
  pass, and nothing on the error path takes it out again (\<^verbatim>\<open>close\<close> does so for the
  endpoint it closes). \<^verbatim>\<open>open\<close> still returns 0 with \<^verbatim>\<open>ENOTSUP\<close>, but the owner is now
  the endpoint that was refused: the first reader is not the owner and cannot become it,
  and its reads fail with \<^verbatim>\<open>ENOTSUP\<close>. The thread is taken to be cancelled in its first
  wait for a writer.
\<close>

theorem open_second_reader_ENOTSUP:
  assumes "0 < get_nreaders w" and "\<not> O_PATH fl"
    and "accmode fl = O_RDONLY \<or> accmode fl = O_RDWR"
  shows "(fr_id_bool (get_owner w) \<and> get_owner w \<noteq> opener_id e \<and> oe_frt e \<noteq> [] \<longrightarrow>
           (\<exists>w'. fifo_open pf e fl w = Some (Returned 0, w') \<and> shm w' = shm w
                 \<and> resets w' = resets w \<and> (reader_setup_granted e \<longrightarrow> errno w' = ENOTSUP)))
       \<and> (\<not> fr_id_bool (get_owner w) \<and> fr_id_bool (opener_id e) \<and> reader_setup_granted e
            \<and> event_granted (oe_conn_evt e) \<and> 2 \<le> length (oe_frt e)
            \<and> cancel_wins (oe_frt e ! 1) \<longrightarrow>
           (\<exists>w'. fifo_open pf e fl w = Some (Returned 0, w') \<and> errno w' = ENOTSUP
                 \<and> get_nreaders w' = get_nreaders w \<and> get_owner w' = opener_id e))"
proof (intro conjI impI)
  assume "fr_id_bool (get_owner w) \<and> get_owner w \<noteq> opener_id e \<and> oe_frt e \<noteq> []"
  then have a: "fr_id_bool (get_owner w)" "get_owner w \<noteq> opener_id e" "oe_frt e \<noteq> []"
    by blast+
  from fifo_open_second_foreign [OF assms a]
  show "\<exists>w'. fifo_open pf e fl w = Some (Returned 0, w') \<and> shm w' = shm w
                 \<and> resets w' = resets w \<and> (reader_setup_granted e \<longrightarrow> errno w' = ENOTSUP)" .
next
  assume "\<not> fr_id_bool (get_owner w) \<and> fr_id_bool (opener_id e) \<and> reader_setup_granted e
            \<and> event_granted (oe_conn_evt e) \<and> 2 \<le> length (oe_frt e)
            \<and> cancel_wins (oe_frt e ! 1)"
  then have a: "reader_setup_granted e" "\<not> fr_id_bool (get_owner w)" "fr_id_bool (opener_id e)"
    "event_granted (oe_conn_evt e)" "2 \<le> length (oe_frt e)" "cancel_wins (oe_frt e ! 1)"
    by blast+
  from fifo_open_second_claims [OF assms a]
  show "\<exists>w'. fifo_open pf e fl w = Some (Returned 0, w') \<and> errno w' = ENOTSUP
                 \<and> get_nreaders w' = get_nreaders w \<and> get_owner w' = opener_id e" .
qed

theorem open_second_reader_ENOTSUP_witness:
  "(\<exists>w'. fifo_open ex_platform ex_open_env ex_rdonly ex_fresh = Some (Returned 0, w')
         \<and> shm w' = shm ex_fresh \<and> resets w' = resets ex_fresh \<and> errno w' = ENOTSUP)
   \<and> (\<exists>w'. fifo_open ex_platform ex_open_env ex_rdonly ex_unclaimed = Some (Returned 0, w')
         \<and> errno w' = ENOTSUP \<and> get_nreaders w' = 1
         \<and> get_owner w' = \<lparr>winpid = 1002, fh = 0x9000\<rparr>
         \<and> get_owner w' \<noteq> me (obj ex_reader)
         \<and> raw_read ex_platform [ex_read_env] 16 (ex_reader\<lparr>shm := shm w'\<rparr>) =
             Some (Returned (- 1),
                   ex_reader\<lparr>shm := shm w', errno := ENOTSUP,
                             calls := [owner_lock, owner_unlock]\<rparr>))"
proof -
  have 1: "0 < get_nreaders ex_fresh" "0 < get_nreaders ex_unclaimed"
    by (simp_all add: get_nreaders_def ex_fresh_def ex_unclaimed_def)
  have 2: "\<not> O_PATH ex_rdonly" by (simp add: ex_rdonly_def)
  have 3: "accmode ex_rdonly = O_RDONLY \<or> accmode ex_rdonly = O_RDWR" by (simp add: ex_rdonly_def)
  have 4: "reader_setup_granted ex_open_env"
    by (simp add: reader_setup_granted_def ex_open_env_def shmem_granted_def event_granted_def
          status_facts NULL_def)
  have 5: "fr_id_bool (get_owner ex_fresh) \<and> get_owner ex_fresh \<noteq> opener_id ex_open_env
           \<and> oe_frt ex_open_env \<noteq> []"
    by (simp add: fr_id_bool_def get_owner_def opener_id_def ex_fresh_def ex_id_def ex_open_env_def)
  have 6: "\<not> fr_id_bool (get_owner ex_unclaimed) \<and> fr_id_bool (opener_id ex_open_env)
            \<and> event_granted (oe_conn_evt ex_open_env) \<and> 2 \<le> length (oe_frt ex_open_env)
            \<and> cancel_wins (oe_frt ex_open_env ! 1)"
    by (simp add: fr_id_bool_def get_owner_def opener_id_def ex_unclaimed_def null_fr_id_def
          ex_open_env_def event_granted_def NT_SUCCESS_def NULL_def cancel_wins_def
          ex_cancel_env_def ex_listen_env_def status_defs)
  have 7: "opener_id ex_open_env = \<lparr>winpid = 1002, fh = 0x9000\<rparr>"
    "get_nreaders ex_unclaimed = 1" "me (obj ex_reader) = ex_id"
    by (simp_all add: opener_id_def ex_open_env_def get_nreaders_def ex_unclaimed_def
          ex_reader_def new_fhandler_fifo_def)
  from open_second_reader_ENOTSUP [OF 1(1) 2 3, of ex_open_env ex_platform] 4 5
  have a: "\<exists>w'. fifo_open ex_platform ex_open_env ex_rdonly ex_fresh = Some (Returned 0, w')
         \<and> shm w' = shm ex_fresh \<and> resets w' = resets ex_fresh \<and> errno w' = ENOTSUP"
    by blast
  from open_second_reader_ENOTSUP [OF 1(2) 2 3, of ex_open_env ex_platform] 4 6
  have "\<exists>w'. fifo_open ex_platform ex_open_env ex_rdonly ex_unclaimed = Some (Returned 0, w')
         \<and> errno w' = ENOTSUP \<and> get_nreaders w' = get_nreaders ex_unclaimed
         \<and> get_owner w' = opener_id ex_open_env"
    by blast
  with 7 obtain w' where w':
    "fifo_open ex_platform ex_open_env ex_rdonly ex_unclaimed = Some (Returned 0, w')"
    "errno w' = ENOTSUP" "get_nreaders w' = 1" "get_owner w' = \<lparr>winpid = 1002, fh = 0x9000\<rparr>"
    by auto
  from w'(4) 7 have n: "get_owner w' \<noteq> me (obj ex_reader)" by (simp add: ex_id_def)
  from w'(4) have "raw_read ex_platform [ex_read_env] 16 (ex_reader\<lparr>shm := shm w'\<rparr>) =
             Some (Returned (- 1),
                   ex_reader\<lparr>shm := shm w', errno := ENOTSUP,
                             calls := [owner_lock, owner_unlock]\<rparr>)"
    by (simp add: raw_read_def Let_def get_owner_def do_call_def set_errno_def ex_reader_def
          ex_id_def new_fhandler_fifo_def)
  with w' n have b: "\<exists>w'. fifo_open ex_platform ex_open_env ex_rdonly ex_unclaimed = Some (Returned 0, w')
         \<and> errno w' = ENOTSUP \<and> get_nreaders w' = 1
         \<and> get_owner w' = \<lparr>winpid = 1002, fh = 0x9000\<rparr>
         \<and> get_owner w' \<noteq> me (obj ex_reader)
         \<and> raw_read ex_platform [ex_read_env] 16 (ex_reader\<lparr>shm := shm w'\<rparr>) =
             Some (Returned (- 1),
                   ex_reader\<lparr>shm := shm w', errno := ENOTSUP,
                             calls := [owner_lock, owner_unlock]\<rparr>)"
    by blast
  from a b show ?thesis by blast
qed

subsection \<open>The owner field\<close>

lemma fold_NtClose_keeps [simp]:
  "shm (fold (\<lambda>fc. do_call (NtClose (h fc))) xs w) = shm w"
  "obj (fold (\<lambda>fc. do_call (NtClose (h fc))) xs w) = obj w"
  by (induction xs arbitrary: w) simp_all

lemma close_owner:
  "get_owner (snd (close bc w)) =
     (if reader (obj w) \<and> get_owner w = me (obj w) then null_fr_id else get_owner w)"
proof (cases "reader (obj w)")
  case False
  then show ?thesis by (simp add: close_def Let_def get_owner_def)
next
  case True
  let ?w4 = "do_call reader_lock (do_call fifo_client_unlock
               (fold (\<lambda>fc. do_call (NtClose (h fc))) (fc_handler (obj w))
                 (do_call fifo_client_lock
                   (if cancel_evt (obj w) \<noteq> NULL
                    then do_call (NtClose (cancel_evt (obj w))) (cancel_reader_thread w)
                    else cancel_reader_thread w))))"
  let ?w5 = "(if read_ready (obj ?w4) \<noteq> NULL then
                (let w4' = dec_nreaders ?w4 in
                 if get_nreaders w4' = 0
                 then do_call (ResetEvent (read_ready (obj w4'))) w4' else w4')
              else ?w4)"
  have a: "owner (shm ?w5) = owner (shm w)" "obj ?w5 = obj w"
    by (simp_all add: Let_def)
  show ?thesis
    using True a
    by (simp add: close_def Let_def get_owner_def)
qed

lemma hit_eof_keeps [simp]: "shm (snd (hit_eof frt w)) = shm w"
  by (simp add: hit_eof_eq)

lemma poll_clients_keeps [simp]: "shm (snd (poll_clients pf e n i w)) = shm w"
proof (induction pf e n i w rule: poll_clients.induct)
  case (1 pf e n i w)
  show ?case
    using "1.IH" by (subst poll_clients.simps) (simp add: Let_def)
qed

lemma raw_read_loop_keeps:
  "raw_read_loop pf es n w = Some (out, w') \<Longrightarrow> shm w' = shm w"
proof (induction es arbitrary: w)
  case Nil
  then show ?case by simp
next
  case (Cons e es)
  let ?w1 = "snd (hit_eof (rd_frt_eof e) w)"
  let ?p = "poll_clients pf e n 0 (do_call fifo_client_lock ?w1)"
  have 1: "shm ?w1 = shm w" by simp
  have 2: "shm (snd ?p) = shm w" by simp
  from Cons.prems Cons.IH 1 2 show ?case
    by (auto simp: split_beta Let_def split: if_splits poll_result.splits bool.splits)
qed

lemma raw_read_keeps:
  "raw_read pf es n w = Some (out, w') \<Longrightarrow> shm w' = shm w"
  by (auto simp: raw_read_def Let_def split: if_splits dest: raw_read_loop_keeps)

lemma raw_write_chunk_keeps [simp]: "shm (snd (raw_write_chunk pf evt chunk e l w)) = shm w"
  by (simp add: raw_write_chunk_def Let_def split_beta)

lemma raw_write_loop_keeps:
  "raw_write_loop pf evt chunk es l w = Some (l', w') \<Longrightarrow> shm w' = shm w"
proof (induction es arbitrary: l w)
  case Nil
  then show ?case by (simp split: if_splits)
next
  case (Cons e es)
  show ?case
  proof (cases "l_nbytes l < l_len l")
    case False
    with Cons.prems show ?thesis by simp
  next
    case True
    with Cons.prems have "raw_write_loop pf evt chunk es
        (fst (raw_write_chunk pf evt chunk e l w)) (snd (raw_write_chunk pf evt chunk e l w))
        = Some (l', w')"
      by (simp add: split_beta)
    from Cons.IH [OF this] show ?thesis by simp
  qed
qed

lemma raw_write_keeps:
  "raw_write pf se es p n w = Some (out, w') \<Longrightarrow> shm w' = shm w"
  by (auto simp: raw_write_def Let_def split: if_splits option.splits prod.splits
        dest!: raw_write_loop_keeps)

lemma open_reader_owner:
  "open_reader pf e fl w = Some (out, w') \<Longrightarrow>
     owner (shm w') = owner (shm w)
     \<or> (\<not> fr_id_bool (owner (shm w)) \<and> owner (shm w') = opener_id e)"
  by (auto simp: open_reader_def Let_def split_beta opener_id_def
        split: if_splits outcome.splits bool.splits
        dest!: goto_err_cancel_frt_Some(2) err_cancel_frt_Some(3))

lemma open_writer_loop_owner:
  "open_writer_loop pf es fl w = Some (out, w') \<Longrightarrow> owner (shm w') = owner (shm w)"
proof (induction es arbitrary: w)
  case Nil
  then show ?case by simp
next
  case (Cons e es)
  from Cons.prems Cons.IH show ?case
    by (auto simp: Let_def split_beta split: if_splits outcome.splits bool.splits)
qed

lemma fifo_open_owner:
  "fifo_open pf e fl w = Some (out, w') \<Longrightarrow>
     get_owner w' = get_owner w \<or> (\<not> fr_id_bool (get_owner w) \<and> get_owner w' = opener_id e)"
  by (auto simp: fifo_open_def Let_def get_owner_def
        split: if_splits accmode_t.splits dest!: open_reader_owner open_writer_loop_owner)

text \<open>
  C9. The owner is one field of the shared memory, so it holds one identity or none.
  A pass of the thread's loop and \<^verbatim>\<open>close\<close> change it only as \<open>owner_step\<close> allows:
  they leave it, write the endpoint's own identity into an empty field, or clear it
  while it holds the endpoint's identity; an owner that is set and is another endpoint
  stays. The same holds from start to end of \<^verbatim>\<open>thread_func\<close>. \<^verbatim>\<open>raw_read\<close> and
  \<^verbatim>\<open>raw_write\<close> never change the field, and neither does \<^verbatim>\<open>open\<close> itself; where
  \<^verbatim>\<open>open\<close> cancels the thread it has started and waits for its end, the field is as
  that thread leaves it: the identity of the endpoint being opened, written into an empty
  field, or the owner that was set. (The other methods of the file do not call
  \<^verbatim>\<open>set_owner\<close>.)
\<close>

theorem owner_changed_only_by_claim_and_release:
  "owner_step (me (obj w)) (get_owner w)
     (get_owner (frt_world (thread_func_pass pf conn_evt le w)))
   \<and> owner_step (me (obj w)) (get_owner w) (get_owner (snd (close bc w)))
   \<and> (fr_id_bool (get_owner w) \<and> get_owner w \<noteq> me (obj w) \<longrightarrow>
        get_owner (frt_world (thread_func_pass pf conn_evt le w)) = get_owner w
        \<and> get_owner (snd (close bc w)) = get_owner w)
   \<and> (\<forall>r w'. thread_func pf ce les w = Some (r, w') \<longrightarrow>
        owner_step (me (obj w)) (get_owner w) (get_owner w'))
   \<and> (\<forall>out w'. fifo_open pf oe fl w = Some (out, w') \<longrightarrow>
        owner_step (opener_id oe) (get_owner w) (get_owner w')
        \<and> (fr_id_bool (get_owner w) \<longrightarrow> get_owner w' = get_owner w))
   \<and> (\<forall>out w'. raw_read pf res n w = Some (out, w') \<longrightarrow> get_owner w' = get_owner w)
   \<and> (\<forall>out w'. raw_write pf se wes p m w = Some (out, w') \<longrightarrow> get_owner w' = get_owner w)"
proof (intro conjI allI impI)
  show "owner_step (me (obj w)) (get_owner w)
     (get_owner (frt_world (thread_func_pass pf conn_evt le w)))"
    by (simp add: thread_func_pass_owner owner_step_def)
  show "owner_step (me (obj w)) (get_owner w) (get_owner (snd (close bc w)))"
    by (simp add: close_owner owner_step_def)
next
  assume "fr_id_bool (get_owner w) \<and> get_owner w \<noteq> me (obj w)"
  then show "get_owner (frt_world (thread_func_pass pf conn_evt le w)) = get_owner w"
    by (simp add: thread_func_pass_owner)
next
  assume "fr_id_bool (get_owner w) \<and> get_owner w \<noteq> me (obj w)"
  then show "get_owner (snd (close bc w)) = get_owner w"
    by (simp add: close_owner)
next
  fix r w' assume "thread_func pf ce les w = Some (r, w')"
  from thread_func_owner [OF this]
  show "owner_step (me (obj w)) (get_owner w) (get_owner w')"
    by (auto simp: owner_step_def)
next
  fix out w' assume "fifo_open pf oe fl w = Some (out, w')"
  from fifo_open_owner [OF this]
  show "owner_step (opener_id oe) (get_owner w) (get_owner w')"
    by (auto simp: owner_step_def)
next
  fix out w' assume "fifo_open pf oe fl w = Some (out, w')" and "fr_id_bool (get_owner w)"
  with fifo_open_owner [of pf oe fl w out w']
  show "get_owner w' = get_owner w" by auto
next
  fix out w' assume "raw_read pf res n w = Some (out, w')"
  from raw_read_keeps [OF this] show "get_owner w' = get_owner w" by (simp add: get_owner_def)
next
  fix out w' assume "raw_write pf se wes p m w = Some (out, w')"
  from raw_write_keeps [OF this] show "get_owner w' = get_owner w" by (simp add: get_owner_def)
qed

theorem owner_changed_only_by_claim_and_release_witness:
  "get_owner (frt_world (thread_func_pass ex_platform 0x6C ex_listen_env ex_not_owner)) = ex_id
   \<and> get_owner (snd (close 0 ex_not_owner)) = ex_id
   \<and> me (obj ex_not_owner) \<noteq> ex_id"
proof -
  have 1: "fr_id_bool (get_owner ex_not_owner) \<and> get_owner ex_not_owner \<noteq> me (obj ex_not_owner)"
    by (simp add: fr_id_bool_def get_owner_def ex_defs)
  have 2: "get_owner ex_not_owner = ex_id" by (simp add: get_owner_def ex_defs)
  have 3: "me (obj ex_not_owner) \<noteq> ex_id" by (simp add: ex_defs)
  from owner_changed_only_by_claim_and_release [of ex_not_owner ex_platform "0x6C" ex_listen_env 0] 1
  have "get_owner (frt_world (thread_func_pass ex_platform 0x6C ex_listen_env ex_not_owner))
          = get_owner ex_not_owner
        \<and> get_owner (snd (close 0 ex_not_owner)) = get_owner ex_not_owner"
    by blast
  with 2 3 show ?thesis by simp
qed

end
